theory Spec2Isabelle
  imports Main "HOL-Library.Sublist"
begin

section \<open>Data model (shared schema)\<close>

text \<open>
  JavaScript strings are modelled as \<open>string\<close>; every character of the messages in the
  source is a code unit below 256, so one \<open>char\<close> stands for one code unit. The accented
  letters of the French messages are written by their code.
\<close>

definition e_acute :: char where "e_acute = CHR 0xE9"
definition e_grave :: char where "e_grave = CHR 0xE8"
definition o_circ :: char where "o_circ = CHR 0xF4"
definition apostrophe :: char where "apostrophe = CHR 0x27"

datatype job_status = Pending | Processing | Completed | Failed

datatype log_level = Info | Warn | Error

record LogEntry =
  timestamp :: string
  level :: log_level
  message :: string

text \<open>\<open>uploadJobSchema\<close>: the optional fields are options; the field \<open>id\<close> of the source is \<open>job_id\<close>.\<close>

record UploadJob =
  job_id :: string
  githubToken :: string
  repositoryUrl :: string
  targetBranch :: string
  commitMessage :: "string option"
  preserveStructure :: bool
  overwriteFiles :: bool
  status :: job_status
  progress :: nat
  currentFile :: "string option"
  filesProcessed :: nat
  totalFiles :: nat
  logs :: "LogEntry list"
  error :: "string option"
  createdAt :: string
  updatedAt :: string

text \<open>\<open>insertUploadJobSchema\<close>: the fields a submission supplies.\<close>

record InsertUploadJob =
  ins_githubToken :: string
  ins_repositoryUrl :: string
  ins_targetBranch :: string
  ins_commitMessage :: "string option"
  ins_preserveStructure :: bool
  ins_overwriteFiles :: bool

text \<open>
  \<open>Partial<UploadJob>\<close>: each key is absent (\<open>None\<close>) or present with a value. A key of an
  optional field can be present with the value \<open>undefined\<close>, hence the nested option.
\<close>

record UploadJobUpdates =
  upd_job_id :: "string option"
  upd_githubToken :: "string option"
  upd_repositoryUrl :: "string option"
  upd_targetBranch :: "string option"
  upd_commitMessage :: "string option option"
  upd_preserveStructure :: "bool option"
  upd_overwriteFiles :: "bool option"
  upd_status :: "job_status option"
  upd_progress :: "nat option"
  upd_currentFile :: "string option option"
  upd_filesProcessed :: "nat option"
  upd_totalFiles :: "nat option"
  upd_logs :: "LogEntry list option"
  upd_error :: "string option option"
  upd_createdAt :: "string option"
  upd_updatedAt :: "string option"

definition no_updates :: UploadJobUpdates where
  "no_updates = \<lparr> upd_job_id = None, upd_githubToken = None, upd_repositoryUrl = None,
     upd_targetBranch = None, upd_commitMessage = None, upd_preserveStructure = None,
     upd_overwriteFiles = None, upd_status = None, upd_progress = None,
     upd_currentFile = None, upd_filesProcessed = None, upd_totalFiles = None,
     upd_logs = None, upd_error = None, upd_createdAt = None, upd_updatedAt = None \<rparr>"

text \<open>One key of the object spread \<open>{...job, ...updates}\<close>: the update's value when the key is present.\<close>

definition spread :: "'a \<Rightarrow> 'a option \<Rightarrow> 'a" where
  "spread old new = (case new of None \<Rightarrow> old | Some v \<Rightarrow> v)"

definition spread_job :: "UploadJob \<Rightarrow> UploadJobUpdates \<Rightarrow> UploadJob" where
  "spread_job job updates = \<lparr>
     job_id = spread (job_id job) (upd_job_id updates),
     githubToken = spread (githubToken job) (upd_githubToken updates),
     repositoryUrl = spread (repositoryUrl job) (upd_repositoryUrl updates),
     targetBranch = spread (targetBranch job) (upd_targetBranch updates),
     commitMessage = spread (commitMessage job) (upd_commitMessage updates),
     preserveStructure = spread (preserveStructure job) (upd_preserveStructure updates),
     overwriteFiles = spread (overwriteFiles job) (upd_overwriteFiles updates),
     status = spread (status job) (upd_status updates),
     progress = spread (progress job) (upd_progress updates),
     currentFile = spread (currentFile job) (upd_currentFile updates),
     filesProcessed = spread (filesProcessed job) (upd_filesProcessed updates),
     totalFiles = spread (totalFiles job) (upd_totalFiles updates),
     logs = spread (logs job) (upd_logs updates),
     error = spread (error job) (upd_error updates),
     createdAt = spread (createdAt job) (upd_createdAt updates),
     updatedAt = spread (updatedAt job) (upd_updatedAt updates) \<rparr>"

section \<open>The world outside the program\<close>

text \<open>
  An error object as the handlers read it: \<open>error.status\<close> (absent on a plain \<open>Error\<close>) and
  \<open>error.message\<close>.
\<close>

datatype js_error = JsError (err_status: "nat option") (err_message: string)

text \<open>
  The calls made on the Octokit client, with the client's auth token first. The data of a
  \<open>getContent\<close> response either has a \<open>sha\<close> key or has none (a directory listing).
\<close>

datatype remote_call =
    ReposGet string string string
  | GetContent string string string string string
  | CreateOrUpdateFileContents string string string string string string string "string option"

datatype remote_data = HasSha string | NoSha

record zip_object =
  name :: string
  dir :: bool
  async_base64 :: "js_error + string"

text \<open>
  The environment answers what the program cannot compute: the n-th reading of the clock,
  the remote service's answer to a call given the calls made before it, and the archive
  codec's result on a buffer (the entries in \<open>Object.keys\<close> order, or the error thrown).
\<close>

record env =
  toISOString :: "nat \<Rightarrow> string"
  octokit_rest :: "remote_call list \<Rightarrow> remote_call \<Rightarrow> js_error + remote_data"
  loadAsync :: "string \<Rightarrow> js_error + zip_object list"

text \<open>
  The state threaded through the program: the registry's map, the number of clock readings
  so far, the calls made on the remote service so far, and the registry map as it stood
  after each write to it (what a reader polling between two steps can observe).
\<close>

record world =
  uploadJobs :: "string \<rightharpoonup> UploadJob"
  clock :: nat
  calls :: "remote_call list"
  snapshots :: "(string \<rightharpoonup> UploadJob) list"

definition new_Date :: "env \<Rightarrow> world \<Rightarrow> string \<times> world" where
  "new_Date e w = (toISOString e (clock w), w\<lparr>clock := Suc (clock w)\<rparr>)"

section \<open>Job registry (MemStorage)\<close>

definition getUploadJob :: "string \<Rightarrow> world \<Rightarrow> UploadJob option" where
  "getUploadJob jid w = uploadJobs w jid"

definition createUploadJob :: "env \<Rightarrow> string \<Rightarrow> InsertUploadJob \<Rightarrow> world \<Rightarrow> UploadJob \<times> world" where
  "createUploadJob e uuid insertJob w =
     (let (now, w1) = new_Date e w;
          job = \<lparr> job_id = uuid,
                  githubToken = ins_githubToken insertJob,
                  repositoryUrl = ins_repositoryUrl insertJob,
                  targetBranch = ins_targetBranch insertJob,
                  commitMessage = ins_commitMessage insertJob,
                  preserveStructure = ins_preserveStructure insertJob,
                  overwriteFiles = ins_overwriteFiles insertJob,
                  status = Pending,
                  progress = 0,
                  currentFile = None,
                  filesProcessed = 0,
                  totalFiles = 0,
                  logs = [\<lparr> timestamp = now, level = Info,
                            message = ''Job cr'' @ [e_acute, e_acute] @ '' avec succ'' @ [e_grave] @ ''s'' \<rparr>],
                  error = None,
                  createdAt = now,
                  updatedAt = now \<rparr>;
          st = (uploadJobs w1)(uuid \<mapsto> job)
      in (job, w1\<lparr>uploadJobs := st, snapshots := snapshots w1 @ [st]\<rparr>))"

definition updateUploadJob :: "env \<Rightarrow> string \<Rightarrow> UploadJobUpdates \<Rightarrow> world \<Rightarrow> UploadJob option \<times> world" where
  "updateUploadJob e jid updates w =
     (case uploadJobs w jid of
        None \<Rightarrow> (None, w)
      | Some job \<Rightarrow>
          (let (now, w1) = new_Date e w;
               updatedJob = (spread_job job updates)\<lparr>updatedAt := now\<rparr>;
               st = (uploadJobs w1)(jid \<mapsto> updatedJob)
           in (Some updatedJob, w1\<lparr>uploadJobs := st, snapshots := snapshots w1 @ [st]\<rparr>)))"

section \<open>Strings as the program handles them\<close>

text \<open>\<open>String.prototype.replace\<close> with a string pattern: the first occurrence only.\<close>

fun replace_first :: "string \<Rightarrow> string \<Rightarrow> string \<Rightarrow> string" where
  "replace_first pat rep [] = (if pat = [] then rep else [])"
| "replace_first pat rep (c # cs) =
     (if prefix pat (c # cs) then rep @ drop (length pat) (c # cs)
      else c # replace_first pat rep cs)"

text \<open>
  \<open>String.prototype.split\<close> with a one-character separator: the empty string splits into
  one empty segment.
\<close>

fun js_split :: "char \<Rightarrow> string \<Rightarrow> string list" where
  "js_split sep [] = [[]]"
| "js_split sep (c # cs) =
     (if c = sep then [] # js_split sep cs
      else (case js_split sep cs of [] \<Rightarrow> [[c]] | seg # segs \<Rightarrow> (c # seg) # segs))"

text \<open>\<open>Array.prototype.pop\<close>: \<open>undefined\<close> on the empty array.\<close>

definition js_pop :: "'a list \<Rightarrow> 'a option" where
  "js_pop xs = (if xs = [] then None else Some (last xs))"

text \<open>A non-negative integer in a template literal: its decimal digits.\<close>

definition digit_char :: "nat \<Rightarrow> char" where
  "digit_char d = char_of (48 + d)"

function show_nat :: "nat \<Rightarrow> string" where
  "show_nat n = (if n < 10 then [digit_char n] else show_nat (n div 10) @ [digit_char (n mod 10)])"
  by pat_completeness auto
termination
  by (relation "measure (\<lambda>n. n)") auto

declare show_nat.simps [simp del]

section \<open>Numbers as the program handles them\<close>

text \<open>
  A JavaScript number is an IEEE 754 double. A finite non-negative double is written here
  as a pair \<open>(m, d)\<close> of naturals standing for \<open>m / d\<close>, with \<open>d\<close> a power of two. The
  operations below are those of the binary64 format for positive results in its normal
  range: the exact result is rounded to the nearest number with a 53-bit significand, a tie
  going to the even significand.
\<close>

text \<open>\<open>a / b\<close> rounded to the nearest natural, a tie going to the even one.\<close>

definition round_half_even :: "nat \<Rightarrow> nat \<Rightarrow> nat" where
  "round_half_even a b =
     (let q = a div b; r = a mod b
      in if 2 * r < b then q else if b < 2 * r then Suc q else if even q then q else Suc q)"

text \<open>
  \<open>scale_up a b\<close> doubles \<open>a\<close> until \<open>2^52 \<le> a / b\<close> and returns the new \<open>a\<close> with the
  factor applied; \<open>scale_down a b\<close> doubles \<open>b\<close> until \<open>a / b < 2^53\<close> and returns the new
  \<open>b\<close> with the factor applied.
\<close>

function scale_up :: "nat \<Rightarrow> nat \<Rightarrow> nat \<times> nat" where
  "scale_up a b =
     (if a = 0 \<or> 2 ^ 52 * b \<le> a then (a, 1)
      else (let (a', f) = scale_up (2 * a) b in (a', 2 * f)))"
  by pat_completeness auto
termination
  by (relation "measure (\<lambda>(a, b). 2 ^ 52 * b - a)") auto

declare scale_up.simps [simp del]

function scale_down :: "nat \<Rightarrow> nat \<Rightarrow> nat \<times> nat" where
  "scale_down a b =
     (if b = 0 \<or> a < 2 ^ 53 * b then (b, 1)
      else (let (b', f) = scale_down a (2 * b) in (b', 2 * f)))"
  by pat_completeness auto
termination
  by (relation "measure (\<lambda>(a, b). Suc a - 2 ^ 53 * b)") auto

declare scale_down.simps [simp del]

text \<open>The double nearest to the quotient \<open>a / b\<close> of naturals, for \<open>b > 0\<close>.\<close>

definition to_double :: "nat \<Rightarrow> nat \<Rightarrow> nat \<times> nat" where
  "to_double a b =
     (if a = 0 then (0, 1)
      else (let (a', up) = scale_up a b;
                (b', down) = scale_down a' b
            in (round_half_even a' b' * down, up)))"

text \<open>
  \<open>Math.round((i / n) * 100)\<close> for array indices and lengths \<open>i\<close> and \<open>n > 0\<close> (both are
  doubles as they stand): the quotient is rounded to a double, its product with 100 is
  rounded to a double, and \<open>Math.round\<close> takes the nearest integer, a half rounding up.
\<close>

definition math_round_percent :: "nat \<Rightarrow> nat \<Rightarrow> nat" where
  "math_round_percent i n =
     (let (x, dx) = to_double i n;
          (y, dy) = to_double (x * 100) dx
      in (2 * y + dy) div (2 * dy))"

section \<open>Access validator\<close>

text \<open>
  The regular expression \<open>github\.com\/([^\/]+)\/([^\/]+)\<close> tried at the start of a string.
  Both groups are greedy and are followed by a slash or by nothing, so each takes the whole
  run of characters up to the next slash.
\<close>

definition match_here :: "string \<Rightarrow> (string \<times> string) option" where
  "match_here s =
     (if prefix ''github.com/'' s then
        (let r = drop 11 s;
             owner = takeWhile (\<lambda>c. c \<noteq> CHR ''/'') r
         in if owner = [] then None
            else (case dropWhile (\<lambda>c. c \<noteq> CHR ''/'') r of
                    [] \<Rightarrow> None
                  | _ # r' \<Rightarrow>
                      (let repo = takeWhile (\<lambda>c. c \<noteq> CHR ''/'') r'
                       in if repo = [] then None else Some (owner, repo))))
      else None)"

text \<open>\<open>repoUrl.match(...)\<close>: the leftmost position where the expression matches.\<close>

fun regex_match :: "string \<Rightarrow> (string \<times> string) option" where
  "regex_match [] = match_here []"
| "regex_match (c # cs) =
     (case match_here (c # cs) of Some m \<Rightarrow> Some m | None \<Rightarrow> regex_match cs)"

definition msg_invalid_url :: string where
  "msg_invalid_url = ''URL de d'' @ [e_acute] @ ''p'' @ [o_circ] @ ''t GitHub invalide''"

definition msg_invalid_token :: string where
  "msg_invalid_token = ''Token GitHub invalide ou expir'' @ [e_acute]"

definition msg_not_found :: string where
  "msg_not_found = ''D'' @ [e_acute] @ ''p'' @ [o_circ] @ ''t non trouv'' @ [e_acute]
     @ '' ou pas d'' @ [apostrophe] @ ''acc'' @ [e_grave] @ ''s''"

text \<open>The \<open>catch\<close> block of the validator: what it throws for the error it caught.\<close>

definition validate_catch :: "js_error \<Rightarrow> js_error" where
  "validate_catch err =
     (if err_status err = Some 401 then JsError None msg_invalid_token
      else if err_status err = Some 404 then JsError None msg_not_found
      else JsError None (''Erreur GitHub: '' @ err_message err))"

text \<open>The \<open>throw\<close> for a URL without a match stands inside the \<open>try\<close>, so the \<open>catch\<close> block receives it.\<close>

definition validateGitHubAccess ::
  "env \<Rightarrow> string \<Rightarrow> string \<Rightarrow> world \<Rightarrow> (js_error + string \<times> string) \<times> world" where
  "validateGitHubAccess e token repoUrl w =
     (case regex_match repoUrl of
        None \<Rightarrow> (Inl (validate_catch (JsError None msg_invalid_url)), w)
      | Some (owner, repo) \<Rightarrow>
          (let c = ReposGet token owner (replace_first ''.git'' [] repo);
               w1 = w\<lparr>calls := calls w @ [c]\<rparr>
           in case octokit_rest e (calls w) c of
                Inl err \<Rightarrow> (Inl (validate_catch err), w1)
              | Inr _ \<Rightarrow> (Inr (owner, replace_first ''.git'' [] repo), w1)))"

section \<open>Remote writer\<close>

definition upload_error :: "string \<Rightarrow> js_error \<Rightarrow> js_error" where
  "upload_error path err =
     JsError None (''Erreur lors de l'' @ [apostrophe] @ ''upload de '' @ path @ '': '' @ err_message err)"

text \<open>\<open>...(sha && { sha })\<close>: an absent or empty \<open>sha\<close> adds no key.\<close>

definition sha_key :: "string option \<Rightarrow> string option" where
  "sha_key sha = (case sha of None \<Rightarrow> None | Some s \<Rightarrow> if s = [] then None else Some s)"

definition uploadFileToGitHub ::
  "env \<Rightarrow> string \<Rightarrow> string \<Rightarrow> string \<Rightarrow> string \<Rightarrow> string \<Rightarrow> string \<Rightarrow> string \<Rightarrow> bool \<Rightarrow> world
     \<Rightarrow> (js_error + unit) \<times> world" where
  "uploadFileToGitHub e octokit owner repo path content msg branch overwrite w =
     (let (looked, w1) =
            (if overwrite then
               (let c = GetContent octokit owner repo path branch;
                    w' = w\<lparr>calls := calls w @ [c]\<rparr>
                in case octokit_rest e (calls w) c of
                     Inr (HasSha s) \<Rightarrow> (Inr (Some s), w')
                   | Inr NoSha \<Rightarrow> (Inr None, w')
                   | Inl err \<Rightarrow>
                       if err_status err \<noteq> Some 404 then (Inl err, w') else (Inr None, w'))
             else (Inr None, w))
      in case looked of
           Inl err \<Rightarrow> (Inl (upload_error path err), w1)
         | Inr sha \<Rightarrow>
             (let c = CreateOrUpdateFileContents octokit owner repo path msg content branch (sha_key sha);
                  w2 = w1\<lparr>calls := calls w1 @ [c]\<rparr>
              in case octokit_rest e (calls w1) c of
                   Inl err \<Rightarrow> (Inl (upload_error path err), w2)
                 | Inr _ \<Rightarrow> (Inr (), w2)))"

section \<open>Upload orchestrator\<close>

definition log_now :: "env \<Rightarrow> log_level \<Rightarrow> string \<Rightarrow> world \<Rightarrow> LogEntry \<times> world" where
  "log_now e lvl msg w =
     (let (now, w1) = new_Date e w in (\<lparr> timestamp = now, level = lvl, message = msg \<rparr>, w1))"

text \<open>
  \<open>preserveStructure ? fileName : fileName.split('/').pop()\<close>, of type
  \<open>string | undefined\<close>.
\<close>

definition destination_path :: "bool \<Rightarrow> string \<Rightarrow> string option" where
  "destination_path preserve fileName =
     (if preserve then Some fileName else js_pop (js_split CHR ''/'' fileName))"

text \<open>\<open>jobData.commitMessage || `Upload de ${fileName}`\<close>: an absent or empty message is falsy.\<close>

definition commit_message :: "string option \<Rightarrow> string \<Rightarrow> string" where
  "commit_message template fileName =
     (case template of
        None \<Rightarrow> ''Upload de '' @ fileName
      | Some m \<Rightarrow> if m = [] then ''Upload de '' @ fileName else m)"

text \<open>
  \<open>storage.getUploadJob\<close> then, if the job is there, \<open>storage.updateUploadJob\<close> with the
  logs read and one more entry.
\<close>

definition append_log :: "env \<Rightarrow> string \<Rightarrow> log_level \<Rightarrow> string \<Rightarrow> world \<Rightarrow> world" where
  "append_log e jobId lvl msg w =
     (case getUploadJob jobId w of
        None \<Rightarrow> w
      | Some currentJob \<Rightarrow>
          (let (entry, w1) = log_now e lvl msg w
           in snd (updateUploadJob e jobId
                     (no_updates\<lparr>upd_logs := Some (logs currentJob @ [entry])\<rparr>) w1)))"

text \<open>
  One round of the \<open>for\<close> loop, for the file at index \<open>i\<close> of \<open>n\<close>. A destination path
  \<open>undefined\<close> would reach the writer's template literal as the text \<open>undefined\<close>.
\<close>

definition process_file ::
  "env \<Rightarrow> string \<Rightarrow> InsertUploadJob \<Rightarrow> string \<Rightarrow> string \<Rightarrow> string \<Rightarrow> nat \<Rightarrow> nat \<Rightarrow> zip_object
     \<Rightarrow> world \<Rightarrow> world" where
  "process_file e jobId jobData octokit owner repo n i file w =
     (let fileName = name file;
          w1 = snd (updateUploadJob e jobId
                 (no_updates\<lparr>upd_currentFile := Some (Some fileName),
                              upd_filesProcessed := Some i,
                              upd_progress := Some (math_round_percent i n)\<rparr>) w);
          (res, w2) =
            (case async_base64 file of
               Inl err \<Rightarrow> (Inl err, w1)
             | Inr content \<Rightarrow>
                 uploadFileToGitHub e octokit owner repo
                   (case destination_path (ins_preserveStructure jobData) fileName of
                      None \<Rightarrow> ''undefined'' | Some p \<Rightarrow> p)
                   content
                   (commit_message (ins_commitMessage jobData) fileName)
                   (ins_targetBranch jobData)
                   (ins_overwriteFiles jobData) w1)
      in case res of
           Inr _ \<Rightarrow>
             append_log e jobId Info (''Fichier upload'' @ [e_acute] @ '': '' @ fileName) w2
         | Inl err \<Rightarrow>
             append_log e jobId Error (''Erreur pour '' @ fileName @ '': '' @ err_message err) w2)"

fun process_files ::
  "env \<Rightarrow> string \<Rightarrow> InsertUploadJob \<Rightarrow> string \<Rightarrow> string \<Rightarrow> string \<Rightarrow> nat \<Rightarrow> nat \<Rightarrow> zip_object list
     \<Rightarrow> world \<Rightarrow> world" where
  "process_files e jobId jobData octokit owner repo n i [] w = w"
| "process_files e jobId jobData octokit owner repo n i (file # rest) w =
     process_files e jobId jobData octokit owner repo n (Suc i) rest
       (process_file e jobId jobData octokit owner repo n i file w)"

text \<open>The outer \<open>catch\<close> block.\<close>

definition fatal :: "env \<Rightarrow> string \<Rightarrow> js_error \<Rightarrow> world \<Rightarrow> world" where
  "fatal e jobId err w =
     (let (entry, w1) = log_now e Error (''Erreur fatale: '' @ err_message err) w
      in snd (updateUploadJob e jobId
                (no_updates\<lparr>upd_status := Some Failed,
                             upd_error := Some (Some (err_message err)),
                             upd_logs := Some [entry]\<rparr>) w1))"

definition processZipUpload :: "env \<Rightarrow> string \<Rightarrow> string \<Rightarrow> InsertUploadJob \<Rightarrow> world \<Rightarrow> world" where
  "processZipUpload e jobId zipBuffer jobData w =
     (let (entry1, w1) = log_now e Info
            (''D'' @ [e_acute] @ ''but de l'' @ [apostrophe] @ ''extraction du fichier ZIP'') w;
          w2 = snd (updateUploadJob e jobId
                 (no_updates\<lparr>upd_status := Some Processing, upd_logs := Some [entry1]\<rparr>) w1)
      in case loadAsync e zipBuffer of
           Inl err \<Rightarrow> fatal e jobId err w2
         | Inr zipContent \<Rightarrow>
             (let files = filter (\<lambda>f. \<not> dir f) zipContent;
                  (entry2, w3) = log_now e Info
                    (show_nat (length files) @ '' fichiers d'' @ [e_acute] @ ''tect''
                       @ [e_acute] @ ''s dans le ZIP'') w2;
                  w4 = snd (updateUploadJob e jobId
                         (no_updates\<lparr>upd_totalFiles := Some (length files),
                                      upd_logs := Some [entry2]\<rparr>) w3);
                  (v, w5) = validateGitHubAccess e (ins_githubToken jobData)
                              (ins_repositoryUrl jobData) w4
              in case v of
                   Inl err \<Rightarrow> fatal e jobId err w5
                 | Inr (owner, repo) \<Rightarrow>
                     (let w6 = process_files e jobId jobData (ins_githubToken jobData) owner repo
                                 (length files) 0 files w5;
                          (entry3, w7) = log_now e Info
                            (''Upload termin'' @ [e_acute] @ '' avec succ'' @ [e_grave] @ ''s'') w6
                      in snd (updateUploadJob e jobId
                                (no_updates\<lparr>upd_status := Some Completed,
                                             upd_progress := Some 100,
                                             upd_filesProcessed := Some (length files),
                                             upd_logs := Some [entry3]\<rparr>) w7))))"

text \<open>
  The upload route once the request has passed its checks: the job is created, then the
  run starts on the created job's identifier.
\<close>

definition upload_route :: "env \<Rightarrow> string \<Rightarrow> string \<Rightarrow> InsertUploadJob \<Rightarrow> world \<Rightarrow> world" where
  "upload_route e uuid zipBuffer jobData w =
     (let (job, w1) = createUploadJob e uuid jobData w
      in processZipUpload e (job_id job) zipBuffer jobData w1)"

section \<open>Observed states of a run\<close>

text \<open>
  \<open>tracked jid P Q k w\<close>: the registry map was last written as it stands now; every
  snapshot taken from position \<open>k\<close> on holds a job \<open>jid\<close> that satisfies \<open>P\<close>; and the job
  \<open>jid\<close> as stored now satisfies \<open>Q\<close>.
\<close>

definition tracked :: "string \<Rightarrow> (UploadJob \<Rightarrow> bool) \<Rightarrow> (UploadJob \<Rightarrow> bool) \<Rightarrow> nat \<Rightarrow> world \<Rightarrow> bool" where
  "tracked jid P Q k w \<longleftrightarrow>
     k < length (snapshots w) \<and> last (snapshots w) = uploadJobs w \<and>
     (\<forall>s \<in> set (drop k (snapshots w)). \<exists>j. s jid = Some j \<and> P j) \<and>
     (\<exists>j. uploadJobs w jid = Some j \<and> Q j)"

text \<open>What holds of the job of a run in every state a reader can observe.\<close>

definition job_inv :: "UploadJob \<Rightarrow> bool" where
  "job_inv j \<longleftrightarrow>
     filesProcessed j \<le> totalFiles j \<and>
     (status j = Completed \<longleftrightarrow> progress j = 100 \<and> filesProcessed j = totalFiles j) \<and>
     (status j = Failed \<longrightarrow> progress j = 0) \<and>
     (status j = Pending \<longrightarrow> progress j = 0 \<and> filesProcessed j = 0 \<and> totalFiles j = 0)"

text \<open>The job at the stages of a run: just created, inside round \<open>i\<close>, after \<open>m\<close> rounds, completed, failed.\<close>

definition fresh :: "UploadJob \<Rightarrow> bool" where
  "fresh j \<longleftrightarrow> status j = Pending \<and> progress j = 0 \<and> filesProcessed j = 0 \<and> totalFiles j = 0"

definition in_file :: "nat \<Rightarrow> nat \<Rightarrow> UploadJob \<Rightarrow> bool" where
  "in_file n i j \<longleftrightarrow> status j = Processing \<and> totalFiles j = n \<and> i < n \<and> filesProcessed j = i \<and>
     progress j = math_round_percent i n \<and> length (logs j) = Suc i"

definition looping :: "nat \<Rightarrow> nat \<Rightarrow> UploadJob \<Rightarrow> bool" where
  "looping n m j \<longleftrightarrow> status j = Processing \<and> totalFiles j = n \<and> length (logs j) = Suc m \<and>
     (if m = 0 then filesProcessed j = 0 \<and> progress j = 0
      else m \<le> n \<and> filesProcessed j = m - 1 \<and> progress j = math_round_percent (m - 1) n)"

definition finished :: "nat \<Rightarrow> UploadJob \<Rightarrow> bool" where
  "finished n j \<longleftrightarrow> status j = Completed \<and> progress j = 100 \<and> filesProcessed j = n \<and>
     totalFiles j = n \<and> map level (logs j) = [Info]"

definition aborted :: "string \<Rightarrow> UploadJob \<Rightarrow> bool" where
  "aborted msg j \<longleftrightarrow> status j = Failed \<and> progress j = 0 \<and> filesProcessed j = 0 \<and>
     error j = Some msg \<and> map level (logs j) = [Error]"

text \<open>The update of the last step of a successful run, and the worlds after the first two steps.\<close>

definition final_updates :: "env \<Rightarrow> nat \<Rightarrow> world \<Rightarrow> UploadJobUpdates" where
  "final_updates e n w =
     no_updates\<lparr>upd_status := Some Completed, upd_progress := Some 100,
        upd_filesProcessed := Some n,
        upd_logs := Some [\<lparr> timestamp = toISOString e (clock w), level = Info,
           message = ''Upload termin'' @ [e_acute] @ '' avec succ'' @ [e_grave] @ ''s'' \<rparr>]\<rparr>"

definition run_started :: "env \<Rightarrow> string \<Rightarrow> world \<Rightarrow> world" where
  "run_started e jid w =
     snd (updateUploadJob e jid
               (no_updates\<lparr>upd_status := Some Processing,
                  upd_logs := Some [\<lparr> timestamp = toISOString e (clock w), level = Info,
                     message = ''D'' @ [e_acute] @ ''but de l'' @ [apostrophe] @ ''extraction du fichier ZIP'' \<rparr>]\<rparr>)
               (w\<lparr>clock := Suc (clock w)\<rparr>))"

definition run_counted :: "env \<Rightarrow> string \<Rightarrow> nat \<Rightarrow> world \<Rightarrow> world" where
  "run_counted e jid n w =
     snd (updateUploadJob e jid
                 (no_updates\<lparr>upd_totalFiles := Some n,
                    upd_logs := Some [\<lparr> timestamp = toISOString e (clock (run_started e jid w)), level = Info,
                       message = show_nat n @ '' fichiers d'' @ [e_acute] @ ''tect''
                         @ [e_acute] @ ''s dans le ZIP'' \<rparr>]\<rparr>)
                 ((run_started e jid w)\<lparr>clock := Suc (clock (run_started e jid w))\<rparr>))"

section \<open>Sample inputs\<close>

definition idle_world :: world where
  "idle_world = \<lparr> uploadJobs = Map.empty, clock = 0, calls = [], snapshots = [] \<rparr>"

text \<open>A remote service that accepts every call; a lookup finds a file with token \<open>abc\<close>.\<close>

definition env_accepting :: env where
  "env_accepting = \<lparr> toISOString = show_nat,
       octokit_rest = (\<lambda>h c. Inr (HasSha ''abc'')),
       loadAsync = (\<lambda>b. Inr []) \<rparr>"

text \<open>A remote service whose lookups find a directory listing.\<close>

definition env_directory :: env where
  "env_directory = \<lparr> toISOString = show_nat,
       octokit_rest = (\<lambda>h c. Inr NoSha),
       loadAsync = (\<lambda>b. Inr []) \<rparr>"

text \<open>A remote service whose lookups find nothing (status 404).\<close>

definition env_not_found :: env where
  "env_not_found = \<lparr> toISOString = show_nat,
       octokit_rest = (\<lambda>h c. case c of
            GetContent t ow r p b \<Rightarrow> Inl (JsError (Some 404) ''Not Found'')
          | _ \<Rightarrow> Inr NoSha),
       loadAsync = (\<lambda>b. Inr []) \<rparr>"

definition sample_job :: UploadJob where
  "sample_job = \<lparr> job_id = ''j1'', githubToken = ''tok'',
       repositoryUrl = ''https://github.com/o/r'', targetBranch = ''main'',
       commitMessage = None, preserveStructure = True, overwriteFiles = False,
       status = Pending, progress = 0, currentFile = None, filesProcessed = 0, totalFiles = 0,
       logs = [\<lparr> timestamp = ''0'', level = Info, message = ''created'' \<rparr>],
       error = None, createdAt = ''0'', updatedAt = ''0'' \<rparr>"

definition sample_world :: world where
  "sample_world = \<lparr> uploadJobs = [''j1'' \<mapsto> sample_job, ''j2'' \<mapsto> sample_job\<lparr>job_id := ''j2''\<rparr>],
       clock = 1, calls = [], snapshots = [] \<rparr>"

text \<open>A submission, archive entries, and environments for whole runs.\<close>

definition sample_submission :: InsertUploadJob where
  "sample_submission = \<lparr> ins_githubToken = ''tok'', ins_repositoryUrl = ''https://github.com/o/r'',
       ins_targetBranch = ''main'', ins_commitMessage = None,
       ins_preserveStructure = True, ins_overwriteFiles = False \<rparr>"

definition archive_entry :: "string \<Rightarrow> zip_object" where
  "archive_entry nm = \<lparr> name = nm, dir = False, async_base64 = Inr ''YQ=='' \<rparr>"

text \<open>An archive of a directory and two files; the remote service rejects the write of \<open>a.txt\<close>.\<close>

definition env_one_failure :: env where
  "env_one_failure = \<lparr> toISOString = show_nat,
       octokit_rest = (\<lambda>h c. case c of
            CreateOrUpdateFileContents t ow r p m ct b s \<Rightarrow>
              if p = ''a.txt'' then Inl (JsError (Some 500) ''boom'') else Inr NoSha
          | _ \<Rightarrow> Inr NoSha),
       loadAsync = (\<lambda>b. Inr [\<lparr> name = ''src/'', dir = True, async_base64 = Inr [] \<rparr>,
                              archive_entry ''a.txt'', archive_entry ''src/b.txt'']) \<rparr>"

text \<open>An archive the codec cannot read.\<close>

definition env_corrupt :: env where
  "env_corrupt = \<lparr> toISOString = show_nat,
       octokit_rest = (\<lambda>h c. Inr NoSha),
       loadAsync = (\<lambda>b. Inl (JsError None ''Corrupted zip'')) \<rparr>"

text \<open>A remote service that answers every call with status 401.\<close>

definition env_unauthorized :: env where
  "env_unauthorized = \<lparr> toISOString = show_nat,
       octokit_rest = (\<lambda>h c. Inl (JsError (Some 401) ''Bad credentials'')),
       loadAsync = (\<lambda>b. Inr [archive_entry ''a.txt'']) \<rparr>"

text \<open>An archive of 201 files, all accepted.\<close>

definition env_many :: env where
  "env_many = \<lparr> toISOString = show_nat,
       octokit_rest = (\<lambda>h c. Inr NoSha),
       loadAsync = (\<lambda>b. Inr (map (\<lambda>i. archive_entry (show_nat i)) [0..<201])) \<rparr>"

section \<open>Steps of a run\<close>

lemma log_now_eq:
  "log_now e lvl msg w =
     (\<lparr> timestamp = toISOString e (clock w), level = lvl, message = msg \<rparr>, w\<lparr>clock := Suc (clock w)\<rparr>)"
  by (simp add: log_now_def new_Date_def)

lemma tracked_clock [simp]: "tracked jid P Q k (w\<lparr>clock := c\<rparr>) = tracked jid P Q k w"
  by (simp add: tracked_def)

lemma tracked_calls [simp]: "tracked jid P Q k (w\<lparr>calls := c\<rparr>) = tracked jid P Q k w"
  by (simp add: tracked_def)

lemma updateUploadJob_unknown:
  "uploadJobs w jid = None \<Longrightarrow> updateUploadJob e jid updates w = (None, w)"
  by (simp add: updateUploadJob_def)

lemma updateUploadJob_known:
  "uploadJobs w jid = Some job \<Longrightarrow>
   updateUploadJob e jid updates w =
     (Some ((spread_job job updates)\<lparr>updatedAt := toISOString e (clock w)\<rparr>),
      w\<lparr>clock := Suc (clock w),
        uploadJobs := (uploadJobs w)(jid \<mapsto> (spread_job job updates)\<lparr>updatedAt := toISOString e (clock w)\<rparr>),
        snapshots := snapshots w @ [(uploadJobs w)(jid \<mapsto> (spread_job job updates)\<lparr>updatedAt := toISOString e (clock w)\<rparr>)]\<rparr>)"
  by (simp add: updateUploadJob_def new_Date_def Let_def)

lemma updateUploadJob_calls [simp]: "calls (snd (updateUploadJob e jid upd w)) = calls w"
  by (cases "uploadJobs w jid") (simp_all add: updateUploadJob_known updateUploadJob_unknown)

lemma drop_single: "s \<in> set (drop m [x]) \<Longrightarrow> s = x"
  by (auto dest: in_set_dropD)

lemma tracked_update:
  assumes "tracked jid P Q k w"
    and "\<And>j t. Q j \<Longrightarrow> P (spread_job j upd\<lparr>updatedAt := t\<rparr>) \<and> Q' (spread_job j upd\<lparr>updatedAt := t\<rparr>)"
  shows "tracked jid P Q' k (snd (updateUploadJob e jid upd w))"
proof -
  obtain j where j: "uploadJobs w jid = Some j" "Q j"
    using assms(1) by (auto simp: tracked_def)
  have old: "\<forall>s \<in> set (drop k (snapshots w)). \<exists>j. s jid = Some j \<and> P j" "k < length (snapshots w)"
    using assms(1) by (simp_all add: tracked_def)
  show ?thesis
    using old assms(2)[OF j(2)]
    by (auto simp: updateUploadJob_known[OF j(1)] tracked_def dest: drop_single)
qed

lemma tracked_last_step:
  assumes "tracked jid P Q k w"
    and "\<And>j t. Q j \<Longrightarrow> Q' (spread_job j upd\<lparr>updatedAt := t\<rparr>)"
  shows "\<exists>j j'. last (butlast (snapshots (snd (updateUploadJob e jid upd w)))) jid = Some j \<and> Q j \<and>
            last (snapshots (snd (updateUploadJob e jid upd w))) jid = Some j' \<and> Q' j'"
proof -
  obtain j where j: "uploadJobs w jid = Some j" "Q j"
    using assms(1) by (auto simp: tracked_def)
  have "last (snapshots w) = uploadJobs w"
    using assms(1) by (simp add: tracked_def)
  then show ?thesis
    using j assms(2)[OF j(2)]
    by (simp add: updateUploadJob_known[OF j(1)] butlast_append)
qed

lemma spread_logs:
  "spread_job j (no_updates\<lparr>upd_logs := Some x\<rparr>) = j\<lparr>logs := x\<rparr>"
  by (simp add: spread_job_def spread_def no_updates_def)

lemma tracked_append_log:
  assumes "tracked jid P Q k w"
    and "\<And>j t l. Q j \<Longrightarrow> P (j\<lparr>logs := logs j @ [l], updatedAt := t\<rparr>) \<and> Q' (j\<lparr>logs := logs j @ [l], updatedAt := t\<rparr>)"
  shows "tracked jid P Q' k (append_log e jid lvl msg w)"
proof -
  obtain j where j: "uploadJobs w jid = Some j" "Q j"
    using assms(1) by (auto simp: tracked_def)
  have "tracked jid P Q' k (snd (updateUploadJob e jid
          (no_updates\<lparr>upd_logs := Some (logs j @ [\<lparr> timestamp = toISOString e (clock w), level = lvl, message = msg \<rparr>])\<rparr>)
          (w\<lparr>clock := Suc (clock w)\<rparr>)))"
  proof (rule tracked_update[where Q = "\<lambda>j'. j' = j"])
    show "tracked jid P (\<lambda>j'. j' = j) k (w\<lparr>clock := Suc (clock w)\<rparr>)"
      using assms(1) j by (simp add: tracked_def)
  next
    fix j' t assume "j' = j"
    then show "P (spread_job j' (no_updates\<lparr>upd_logs := Some (logs j @ [\<lparr> timestamp = toISOString e (clock w), level = lvl, message = msg \<rparr>])\<rparr>)\<lparr>updatedAt := t\<rparr>) \<and>
          Q' (spread_job j' (no_updates\<lparr>upd_logs := Some (logs j @ [\<lparr> timestamp = toISOString e (clock w), level = lvl, message = msg \<rparr>])\<rparr>)\<lparr>updatedAt := t\<rparr>)"
      using assms(2)[OF j(2)] by (simp add: spread_logs)
  qed
  then show ?thesis
    using j by (simp add: append_log_def getUploadJob_def log_now_eq)
qed

lemma uploadFileToGitHub_world:
  "\<exists>cs. snd (uploadFileToGitHub e octokit owner repo path content msg branch overwrite w)
          = w\<lparr>calls := calls w @ cs\<rparr>"
  by (auto simp: uploadFileToGitHub_def Let_def split: sum.splits remote_data.splits if_splits)

lemma validateGitHubAccess_world:
  "snd (validateGitHubAccess e token repoUrl w) = w \<or>
   (\<exists>ow r. snd (validateGitHubAccess e token repoUrl w) = w\<lparr>calls := calls w @ [ReposGet token ow r]\<rparr>)"
  by (auto simp: validateGitHubAccess_def Let_def split: option.splits sum.splits prod.splits)

lemma validateGitHubAccess_calls_only:
  "calls w = calls w' \<Longrightarrow>
   fst (validateGitHubAccess e token repoUrl w) = fst (validateGitHubAccess e token repoUrl w')"
  by (auto simp: validateGitHubAccess_def Let_def split: option.splits sum.splits prod.splits)


lemma process_file_tracked:
  assumes "tracked jid job_inv (looping n i) k w" and "i < n"
  shows "tracked jid job_inv (looping n (Suc i)) k (process_file e jid jd tok owner repo n i file w)"
proof -
  let ?w1 = "snd (updateUploadJob e jid
                 (no_updates\<lparr>upd_currentFile := Some (Some (name file)),
                              upd_filesProcessed := Some i,
                              upd_progress := Some (math_round_percent i n)\<rparr>) w)"
  have t1: "tracked jid job_inv (in_file n i) k ?w1"
    by (rule tracked_update[OF assms(1)])
       (use assms(2) in
         \<open>auto simp: looping_def in_file_def job_inv_def spread_job_def spread_def no_updates_def
            split: if_splits\<close>)
  have after: "tracked jid job_inv (looping n (Suc i)) k (append_log e jid lvl msg w')"
    if "tracked jid job_inv (in_file n i) k w'" for lvl msg w'
    by (rule tracked_append_log[OF that])
       (auto simp: looping_def in_file_def job_inv_def)
  show ?thesis
  proof (cases "async_base64 file")
    case (Inl err)
    then show ?thesis
      using after[OF t1] by (simp add: process_file_def Let_def)
  next
    case (Inr content)
    obtain cs where cs: "snd (uploadFileToGitHub e tok owner repo
                   (case destination_path (ins_preserveStructure jd) (name file) of
                      None \<Rightarrow> ''undefined'' | Some p \<Rightarrow> p)
                   content
                   (commit_message (ins_commitMessage jd) (name file))
                   (ins_targetBranch jd)
                   (ins_overwriteFiles jd) ?w1) = ?w1\<lparr>calls := calls ?w1 @ cs\<rparr>"
      using uploadFileToGitHub_world by blast
    have "tracked jid job_inv (in_file n i) k (?w1\<lparr>calls := calls ?w1 @ cs\<rparr>)"
      using t1 by simp
    from after[OF this] show ?thesis
      using Inr cs
      by (auto simp: process_file_def Let_def split: prod.splits sum.splits)
  qed
qed

lemma process_files_tracked:
  "tracked jid job_inv (looping n i) k w \<Longrightarrow> i + length files = n \<Longrightarrow>
   tracked jid job_inv (looping n n) k (process_files e jid jd tok owner repo n i files w)"
proof (induction files arbitrary: i w)
  case Nil
  then show ?case by simp
next
  case (Cons f rest)
  have "tracked jid job_inv (looping n (Suc i)) k (process_file e jid jd tok owner repo n i f w)"
    using Cons.prems by (intro process_file_tracked) auto
  then show ?case
    using Cons.prems by (simp add: Cons.IH)
qed

lemma fatal_tracked:
  assumes "tracked jid job_inv (looping n 0) k w"
  shows "tracked jid job_inv (aborted (err_message err)) k (fatal e jid err w)"
proof -
  have "tracked jid job_inv (aborted (err_message err)) k
          (snd (updateUploadJob e jid
                (no_updates\<lparr>upd_status := Some Failed,
                             upd_error := Some (Some (err_message err)),
                             upd_logs := Some [\<lparr> timestamp = toISOString e (clock w), level = Error,
                                message = ''Erreur fatale: '' @ err_message err \<rparr>]\<rparr>)
                (w\<lparr>clock := Suc (clock w)\<rparr>)))"
    by (rule tracked_update[where Q = "looping n 0"])
       (use assms in \<open>auto simp: looping_def aborted_def job_inv_def spread_job_def spread_def no_updates_def\<close>)
  then show ?thesis
    by (simp add: fatal_def log_now_eq)
qed


lemma fatal_calls [simp]: "calls (fatal e jid err w) = calls w"
  by (simp add: fatal_def log_now_eq)

lemma pz_corrupt_eq:
  "loadAsync e zb = Inl err \<Longrightarrow>
   processZipUpload e jid zb jd w = fatal e jid err
     (snd (updateUploadJob e jid
               (no_updates\<lparr>upd_status := Some Processing,
                  upd_logs := Some [\<lparr> timestamp = toISOString e (clock w), level = Info,
                     message = ''D'' @ [e_acute] @ ''but de l'' @ [apostrophe] @ ''extraction du fichier ZIP'' \<rparr>]\<rparr>)
               (w\<lparr>clock := Suc (clock w)\<rparr>)))"
  by (simp add: processZipUpload_def log_now_eq Let_def)

lemma pz_loaded_eq:
  "loadAsync e zb = Inr zc \<Longrightarrow>
   processZipUpload e jid zb jd w =
     (let files = filter (\<lambda>f. \<not> dir f) zc;
          v = validateGitHubAccess e (ins_githubToken jd) (ins_repositoryUrl jd)
                (run_counted e jid (length files) w)
      in case fst v of
           Inl err \<Rightarrow> fatal e jid err (snd v)
         | Inr x \<Rightarrow>
             (let w6 = process_files e jid jd (ins_githubToken jd) (fst x) (snd x)
                         (length files) 0 files (snd v)
              in snd (updateUploadJob e jid (final_updates e (length files) w6)
                        (w6\<lparr>clock := Suc (clock w6)\<rparr>))))"
  unfolding processZipUpload_def run_counted_def run_started_def final_updates_def log_now_eq
  by (simp only: Let_def split_def fst_conv snd_conv sum.case)


lemma run_started_tracked:
  "tracked jid job_inv fresh k w \<Longrightarrow> tracked jid job_inv (looping 0 0) k (run_started e jid w)"
  unfolding run_started_def
  by (rule tracked_update[where Q = fresh])
     (auto simp: fresh_def looping_def job_inv_def spread_job_def spread_def no_updates_def)

lemma run_started_calls [simp]: "calls (run_started e jid w) = calls w"
  by (simp add: run_started_def)

lemma run_counted_tracked:
  assumes "tracked jid job_inv fresh k w"
  shows "tracked jid job_inv (looping n 0) k (run_counted e jid n w)"
  unfolding run_counted_def
  by (rule tracked_update[where Q = "looping 0 0"])
     (use run_started_tracked[OF assms] in
       \<open>auto simp: looping_def job_inv_def spread_job_def spread_def no_updates_def\<close>)

lemma run_counted_calls [simp]: "calls (run_counted e jid n w) = calls w"
  by (simp add: run_counted_def)

lemma pz_corrupt:
  assumes "loadAsync e zb = Inl err" and "tracked jid job_inv fresh k w"
  shows "tracked jid job_inv (aborted (err_message err)) k (processZipUpload e jid zb jd w)"
    and "calls (processZipUpload e jid zb jd w) = calls w"
proof -
  have eq: "processZipUpload e jid zb jd w = fatal e jid err (run_started e jid w)"
    using assms(1) by (simp add: pz_corrupt_eq run_started_def)
  show "tracked jid job_inv (aborted (err_message err)) k (processZipUpload e jid zb jd w)"
    unfolding eq by (rule fatal_tracked[OF run_started_tracked[OF assms(2)]])
  show "calls (processZipUpload e jid zb jd w) = calls w"
    unfolding eq by simp
qed

lemma pz_invalid:
  assumes "loadAsync e zb = Inr zc"
    and "fst (validateGitHubAccess e (ins_githubToken jd) (ins_repositoryUrl jd) w) = Inl err"
    and "tracked jid job_inv fresh k w"
  shows "tracked jid job_inv (aborted (err_message err)) k (processZipUpload e jid zb jd w)"
    and "calls (processZipUpload e jid zb jd w) = calls w \<or>
         (\<exists>ow r. calls (processZipUpload e jid zb jd w) = calls w @ [ReposGet (ins_githubToken jd) ow r])"
proof -
  let ?n = "length (filter (\<lambda>f. \<not> dir f) zc)"
  let ?w4 = "run_counted e jid ?n w"
  let ?v = "validateGitHubAccess e (ins_githubToken jd) (ins_repositoryUrl jd) ?w4"
  have v: "fst ?v = Inl err"
    using assms(2) validateGitHubAccess_calls_only[of ?w4 w] by simp
  have eq: "processZipUpload e jid zb jd w = fatal e jid err (snd ?v)"
    using v by (simp add: pz_loaded_eq[OF assms(1)] Let_def)
  have t4: "tracked jid job_inv (looping ?n 0) k ?w4"
    by (rule run_counted_tracked[OF assms(3)])
  have world: "snd ?v = ?w4 \<or> (\<exists>ow r. snd ?v = ?w4\<lparr>calls := calls ?w4 @ [ReposGet (ins_githubToken jd) ow r]\<rparr>)"
    by (rule validateGitHubAccess_world)
  then have t5: "tracked jid job_inv (looping ?n 0) k (snd ?v)"
    using t4 by auto
  show "tracked jid job_inv (aborted (err_message err)) k (processZipUpload e jid zb jd w)"
    unfolding eq by (rule fatal_tracked[OF t5])
  show "calls (processZipUpload e jid zb jd w) = calls w \<or>
         (\<exists>ow r. calls (processZipUpload e jid zb jd w) = calls w @ [ReposGet (ins_githubToken jd) ow r])"
    unfolding eq using world by auto
qed

lemma pz_valid:
  assumes "loadAsync e zb = Inr zc"
    and "fst (validateGitHubAccess e (ins_githubToken jd) (ins_repositoryUrl jd) w) = Inr v"
    and "tracked jid job_inv fresh k w"
  shows "\<exists>w6. tracked jid job_inv (looping (length (filter (\<lambda>f. \<not> dir f) zc))
                   (length (filter (\<lambda>f. \<not> dir f) zc))) k w6 \<and>
           processZipUpload e jid zb jd w =
             snd (updateUploadJob e jid (final_updates e (length (filter (\<lambda>f. \<not> dir f) zc)) w6)
                    (w6\<lparr>clock := Suc (clock w6)\<rparr>))"
proof -
  let ?files = "filter (\<lambda>f. \<not> dir f) zc"
  let ?n = "length ?files"
  let ?w4 = "run_counted e jid ?n w"
  let ?v = "validateGitHubAccess e (ins_githubToken jd) (ins_repositoryUrl jd) ?w4"
  let ?w6 = "process_files e jid jd (ins_githubToken jd) (fst v) (snd v) ?n 0 ?files (snd ?v)"
  have v: "fst ?v = Inr v"
    using assms(2) validateGitHubAccess_calls_only[of ?w4 w] by simp
  have eq: "processZipUpload e jid zb jd w =
      snd (updateUploadJob e jid (final_updates e ?n ?w6) (?w6\<lparr>clock := Suc (clock ?w6)\<rparr>))"
    using v by (simp add: pz_loaded_eq[OF assms(1)] Let_def)
  have t4: "tracked jid job_inv (looping ?n 0) k ?w4"
    by (rule run_counted_tracked[OF assms(3)])
  have "snd ?v = ?w4 \<or> (\<exists>ow r. snd ?v = ?w4\<lparr>calls := calls ?w4 @ [ReposGet (ins_githubToken jd) ow r]\<rparr>)"
    by (rule validateGitHubAccess_world)
  then have t5: "tracked jid job_inv (looping ?n 0) k (snd ?v)"
    using t4 by auto
  have t6: "tracked jid job_inv (looping ?n ?n) k ?w6"
    by (rule process_files_tracked[OF t5]) simp
  show ?thesis
    using t6 eq by blast
qed

lemma final_step:
  "looping n n j \<Longrightarrow>
   job_inv (spread_job j (final_updates e n w)\<lparr>updatedAt := t\<rparr>) \<and>
   finished n (spread_job j (final_updates e n w)\<lparr>updatedAt := t\<rparr>)"
  by (auto simp: looping_def finished_def job_inv_def final_updates_def spread_job_def spread_def
        no_updates_def split: if_splits)

lemma pz_valid_tracked:
  assumes "loadAsync e zb = Inr zc"
    and "fst (validateGitHubAccess e (ins_githubToken jd) (ins_repositoryUrl jd) w) = Inr v"
    and "tracked jid job_inv fresh k w"
  shows "tracked jid job_inv (finished (length (filter (\<lambda>f. \<not> dir f) zc))) k
           (processZipUpload e jid zb jd w)"
proof -
  let ?n = "length (filter (\<lambda>f. \<not> dir f) zc)"
  obtain w6 where w6: "tracked jid job_inv (looping ?n ?n) k w6"
    "processZipUpload e jid zb jd w =
       snd (updateUploadJob e jid (final_updates e ?n w6) (w6\<lparr>clock := Suc (clock w6)\<rparr>))"
    using pz_valid[OF assms] by blast
  have "tracked jid job_inv (looping ?n ?n) k (w6\<lparr>clock := Suc (clock w6)\<rparr>)"
    using w6(1) by simp
  then show ?thesis
    unfolding w6(2) by (rule tracked_update) (rule final_step)
qed

lemma pz_valid_last_step:
  assumes "loadAsync e zb = Inr zc"
    and "fst (validateGitHubAccess e (ins_githubToken jd) (ins_repositoryUrl jd) w) = Inr v"
    and "tracked jid job_inv fresh k w"
  shows "\<exists>j j'. last (butlast (snapshots (processZipUpload e jid zb jd w))) jid = Some j \<and>
            looping (length (filter (\<lambda>f. \<not> dir f) zc)) (length (filter (\<lambda>f. \<not> dir f) zc)) j \<and>
            last (snapshots (processZipUpload e jid zb jd w)) jid = Some j' \<and>
            finished (length (filter (\<lambda>f. \<not> dir f) zc)) j'"
proof -
  let ?n = "length (filter (\<lambda>f. \<not> dir f) zc)"
  obtain w6 where w6: "tracked jid job_inv (looping ?n ?n) k w6"
    "processZipUpload e jid zb jd w =
       snd (updateUploadJob e jid (final_updates e ?n w6) (w6\<lparr>clock := Suc (clock w6)\<rparr>))"
    using pz_valid[OF assms] by blast
  have "tracked jid job_inv (looping ?n ?n) k (w6\<lparr>clock := Suc (clock w6)\<rparr>)"
    using w6(1) by simp
  then show ?thesis
    unfolding w6(2) by (rule tracked_last_step) (simp add: final_step)
qed

lemma createUploadJob_tracked:
  "tracked uuid job_inv fresh (length (snapshots w)) (snd (createUploadJob e uuid jd w))"
  by (simp add: createUploadJob_def new_Date_def Let_def tracked_def fresh_def job_inv_def)

lemma createUploadJob_calls [simp]: "calls (snd (createUploadJob e uuid jd w)) = calls w"
  by (simp add: createUploadJob_def new_Date_def Let_def)

lemma createUploadJob_id [simp]: "job_id (fst (createUploadJob e uuid jd w)) = uuid"
  by (simp add: createUploadJob_def new_Date_def Let_def)

lemma upload_route_eq:
  "upload_route e uuid zb jd w = processZipUpload e uuid zb jd (snd (createUploadJob e uuid jd w))"
  by (simp add: upload_route_def split_def Let_def)

section \<open>Destination path\<close>

lemma js_split_not_empty: "js_split sep s \<noteq> []"
  by (induction s) (auto split: list.splits)

text \<open>
  C10: for every entry name and either value of the preserve-structure flag, splitting the
  name on the slash yields at least one segment, taking the last segment is defined, and the
  destination path is a string, never \<open>undefined\<close>.
\<close>

theorem destination_path_total:
  "js_split CHR ''/'' fileName \<noteq> [] \<and>
   js_pop (js_split CHR ''/'' fileName) = Some (last (js_split CHR ''/'' fileName)) \<and>
   (\<exists>p. destination_path preserve fileName = Some p)"
  by (simp add: destination_path_def js_pop_def js_split_not_empty)

section \<open>Registry update: frame\<close>

text \<open>
  C9: an update of an unknown identifier returns absence and leaves the world as it was. An
  update of a stored job returns and stores the new record, leaves every other identifier's
  entry as it was, sets \<open>updatedAt\<close> to the clock's reading, and gives every other field the
  update's value when the update names the field and the job's prior value when it does not.
\<close>

theorem updateUploadJob_frame:
  "(uploadJobs w jid = None \<longrightarrow> updateUploadJob e jid updates w = (None, w)) \<and>
   (\<forall>job. uploadJobs w jid = Some job \<longrightarrow>
      (\<exists>job'. fst (updateUploadJob e jid updates w) = Some job' \<and>
         uploadJobs (snd (updateUploadJob e jid updates w)) jid = Some job' \<and>
         (\<forall>other. other \<noteq> jid \<longrightarrow>
            uploadJobs (snd (updateUploadJob e jid updates w)) other = uploadJobs w other) \<and>
         updatedAt job' = toISOString e (clock w) \<and>
         job_id job' = (case upd_job_id updates of None \<Rightarrow> job_id job | Some v \<Rightarrow> v) \<and>
         githubToken job' = (case upd_githubToken updates of None \<Rightarrow> githubToken job | Some v \<Rightarrow> v) \<and>
         repositoryUrl job' = (case upd_repositoryUrl updates of None \<Rightarrow> repositoryUrl job | Some v \<Rightarrow> v) \<and>
         targetBranch job' = (case upd_targetBranch updates of None \<Rightarrow> targetBranch job | Some v \<Rightarrow> v) \<and>
         commitMessage job' = (case upd_commitMessage updates of None \<Rightarrow> commitMessage job | Some v \<Rightarrow> v) \<and>
         preserveStructure job' = (case upd_preserveStructure updates of None \<Rightarrow> preserveStructure job | Some v \<Rightarrow> v) \<and>
         overwriteFiles job' = (case upd_overwriteFiles updates of None \<Rightarrow> overwriteFiles job | Some v \<Rightarrow> v) \<and>
         status job' = (case upd_status updates of None \<Rightarrow> status job | Some v \<Rightarrow> v) \<and>
         progress job' = (case upd_progress updates of None \<Rightarrow> progress job | Some v \<Rightarrow> v) \<and>
         currentFile job' = (case upd_currentFile updates of None \<Rightarrow> currentFile job | Some v \<Rightarrow> v) \<and>
         filesProcessed job' = (case upd_filesProcessed updates of None \<Rightarrow> filesProcessed job | Some v \<Rightarrow> v) \<and>
         totalFiles job' = (case upd_totalFiles updates of None \<Rightarrow> totalFiles job | Some v \<Rightarrow> v) \<and>
         logs job' = (case upd_logs updates of None \<Rightarrow> logs job | Some v \<Rightarrow> v) \<and>
         error job' = (case upd_error updates of None \<Rightarrow> error job | Some v \<Rightarrow> v) \<and>
         createdAt job' = (case upd_createdAt updates of None \<Rightarrow> createdAt job | Some v \<Rightarrow> v)))"
  by (simp add: updateUploadJob_unknown updateUploadJob_known spread_job_def spread_def)

theorem updateUploadJob_frame_witness:
  "uploadJobs sample_world ''j1'' = Some sample_job \<and>
   uploadJobs sample_world ''zz'' = None \<and>
   updateUploadJob env_accepting ''zz'' (no_updates\<lparr>upd_progress := Some 7\<rparr>) sample_world
     = (None, sample_world) \<and>
   (\<exists>job'. fst (updateUploadJob env_accepting ''j1'' (no_updates\<lparr>upd_progress := Some 7\<rparr>) sample_world)
              = Some job' \<and>
      progress job' = 7 \<and> status job' = Pending \<and> logs job' = logs sample_job \<and>
      updatedAt job' = ''1'' \<and>
      uploadJobs (snd (updateUploadJob env_accepting ''j1'' (no_updates\<lparr>upd_progress := Some 7\<rparr>)
                         sample_world)) ''j2''
        = Some (sample_job\<lparr>job_id := ''j2''\<rparr>))"
proof -
  have known: "uploadJobs sample_world ''j1'' = Some sample_job"
    and unknown: "uploadJobs sample_world ''zz'' = None"
    and other: "uploadJobs sample_world ''j2'' = Some (sample_job\<lparr>job_id := ''j2''\<rparr>)"
    by (simp_all add: sample_world_def)
  have "show_nat 1 = ''1''"
    by code_simp
  then have clock: "toISOString env_accepting (clock sample_world) = ''1''"
    by (simp add: env_accepting_def sample_world_def)
  have upd: "upd_progress (no_updates\<lparr>upd_progress := Some 7\<rparr>) = Some 7"
    "upd_status (no_updates\<lparr>upd_progress := Some 7\<rparr>) = None"
    "upd_logs (no_updates\<lparr>upd_progress := Some 7\<rparr>) = None"
    by (simp_all add: no_updates_def)
  have st: "status sample_job = Pending"
    by (simp add: sample_job_def)
  from updateUploadJob_frame[of sample_world "''zz''" env_accepting "no_updates\<lparr>upd_progress := Some 7\<rparr>"]
    updateUploadJob_frame[of sample_world "''j1''" env_accepting "no_updates\<lparr>upd_progress := Some 7\<rparr>"]
  show ?thesis
    using known unknown other clock upd st by auto
qed

section \<open>Access validator\<close>

lemma regex_no_match: "regex_match ''https://example.com/owner/repo'' = None"
  by (simp add: match_here_def)

text \<open>
  C5: at a repository URL without the owner/repo shape the validator does not fail with the
  invalid-reference message: it fails with the remote-error message wrapped around that
  text, which is also what a remote failure whose message is that text produces.
\<close>

theorem invalid_url_message_is_wrapped:
  "fst (validateGitHubAccess env_accepting ''t'' ''https://example.com/owner/repo'' idle_world)
     = Inl (JsError None (''Erreur GitHub: '' @ msg_invalid_url)) \<and>
   ''Erreur GitHub: '' @ msg_invalid_url \<noteq> msg_invalid_url \<and>
   validate_catch (JsError (Some 500) msg_invalid_url)
     = JsError None (''Erreur GitHub: '' @ msg_invalid_url)"
  by (simp add: validateGitHubAccess_def regex_no_match validate_catch_def msg_invalid_url_def
        del: regex_match.simps)

lemma regex_pages: "regex_match ''https://github.com/alice/alice.github.io'' = Some (''alice'', ''alice.github.io'')"
  by (simp add: match_here_def)

text \<open>
  C7: at the URL of a repository named \<open>alice.github.io\<close> the validator asks the remote
  service for, and returns, the repository \<open>alicehub.io\<close>: the interior \<open>.git\<close> is removed.
\<close>

theorem interior_git_is_stripped:
  "validateGitHubAccess env_accepting ''t'' ''https://github.com/alice/alice.github.io'' idle_world
     = (Inr (''alice'', ''alicehub.io''),
        idle_world\<lparr>calls := [ReposGet ''t'' ''alice'' ''alicehub.io'']\<rparr>)"
  by (simp add: validateGitHubAccess_def regex_pages env_accepting_def idle_world_def Let_def
        del: regex_match.simps)

section \<open>Remote writer\<close>

text \<open>
  C6, as stated, fails where the path exists as a directory: the one lookup succeeds, and
  the one write carries no version token.
\<close>

theorem overwrite_directory_no_token:
  "uploadFileToGitHub env_directory ''t'' ''o'' ''r'' ''docs'' ''YQ=='' ''msg'' ''main'' True idle_world
     = (Inr (), idle_world\<lparr>calls :=
          [GetContent ''t'' ''o'' ''r'' ''docs'' ''main'',
           CreateOrUpdateFileContents ''t'' ''o'' ''r'' ''docs'' ''msg'' ''YQ=='' ''main'' None]\<rparr>)"
  by (simp add: uploadFileToGitHub_def env_directory_def idle_world_def Let_def sha_key_def)

text \<open>
  C6, amended: with the overwrite flag set and a lookup whose data carries a non-empty
  \<open>sha\<close>, the writer makes exactly one lookup, then exactly one write carrying that token.
  With the flag set and a lookup answered not-found, it makes one lookup, then one write
  without a token, and the invocation's result is the write's alone. With the flag set and
  lookup data without a \<open>sha\<close>, it makes one lookup, then one write without a token. With
  the flag unset it makes the write alone, without a token.
\<close>

theorem remote_writer_calls:
  "(overwrite \<and> octokit_rest e (calls w) (GetContent octokit owner repo path branch) = Inr (HasSha s)
      \<and> s \<noteq> [] \<longrightarrow>
      calls (snd (uploadFileToGitHub e octokit owner repo path content msg branch overwrite w))
        = calls w @ [GetContent octokit owner repo path branch,
                     CreateOrUpdateFileContents octokit owner repo path msg content branch (Some s)]) \<and>
   (overwrite \<and> octokit_rest e (calls w) (GetContent octokit owner repo path branch) = Inl err
      \<and> err_status err = Some 404 \<longrightarrow>
      calls (snd (uploadFileToGitHub e octokit owner repo path content msg branch overwrite w))
        = calls w @ [GetContent octokit owner repo path branch,
                     CreateOrUpdateFileContents octokit owner repo path msg content branch None] \<and>
      fst (uploadFileToGitHub e octokit owner repo path content msg branch overwrite w)
        = (case octokit_rest e (calls w @ [GetContent octokit owner repo path branch])
                  (CreateOrUpdateFileContents octokit owner repo path msg content branch None) of
             Inl err' \<Rightarrow> Inl (upload_error path err') | Inr d \<Rightarrow> Inr ())) \<and>
   (overwrite \<and> octokit_rest e (calls w) (GetContent octokit owner repo path branch) = Inr NoSha \<longrightarrow>
      calls (snd (uploadFileToGitHub e octokit owner repo path content msg branch overwrite w))
        = calls w @ [GetContent octokit owner repo path branch,
                     CreateOrUpdateFileContents octokit owner repo path msg content branch None]) \<and>
   (\<not> overwrite \<longrightarrow>
      calls (snd (uploadFileToGitHub e octokit owner repo path content msg branch overwrite w))
        = calls w @ [CreateOrUpdateFileContents octokit owner repo path msg content branch None])"
  by (auto simp: uploadFileToGitHub_def Let_def sha_key_def split: sum.splits)

theorem remote_writer_calls_witness:
  "calls (snd (uploadFileToGitHub env_accepting ''t'' ''o'' ''r'' ''a.txt'' ''YQ=='' ''m'' ''main'' True idle_world))
     = [GetContent ''t'' ''o'' ''r'' ''a.txt'' ''main'',
        CreateOrUpdateFileContents ''t'' ''o'' ''r'' ''a.txt'' ''m'' ''YQ=='' ''main'' (Some ''abc'')] \<and>
   calls (snd (uploadFileToGitHub env_not_found ''t'' ''o'' ''r'' ''a.txt'' ''YQ=='' ''m'' ''main'' True idle_world))
     = [GetContent ''t'' ''o'' ''r'' ''a.txt'' ''main'',
        CreateOrUpdateFileContents ''t'' ''o'' ''r'' ''a.txt'' ''m'' ''YQ=='' ''main'' None] \<and>
   fst (uploadFileToGitHub env_not_found ''t'' ''o'' ''r'' ''a.txt'' ''YQ=='' ''m'' ''main'' True idle_world)
     = Inr () \<and>
   calls (snd (uploadFileToGitHub env_directory ''t'' ''o'' ''r'' ''a.txt'' ''YQ=='' ''m'' ''main'' True idle_world))
     = [GetContent ''t'' ''o'' ''r'' ''a.txt'' ''main'',
        CreateOrUpdateFileContents ''t'' ''o'' ''r'' ''a.txt'' ''m'' ''YQ=='' ''main'' None] \<and>
   calls (snd (uploadFileToGitHub env_accepting ''t'' ''o'' ''r'' ''a.txt'' ''YQ=='' ''m'' ''main'' False idle_world))
     = [CreateOrUpdateFileContents ''t'' ''o'' ''r'' ''a.txt'' ''m'' ''YQ=='' ''main'' None]"
proof -
  have found: "octokit_rest env_accepting (calls idle_world) (GetContent ''t'' ''o'' ''r'' ''a.txt'' ''main'')
                 = Inr (HasSha ''abc'')" "''abc'' \<noteq> []"
    by (simp_all add: env_accepting_def)
  have missing: "octokit_rest env_not_found (calls idle_world) (GetContent ''t'' ''o'' ''r'' ''a.txt'' ''main'')
                   = Inl (JsError (Some 404) ''Not Found'')"
      "err_status (JsError (Some 404) ''Not Found'') = Some 404"
      "octokit_rest env_not_found (calls idle_world @ [GetContent ''t'' ''o'' ''r'' ''a.txt'' ''main''])
         (CreateOrUpdateFileContents ''t'' ''o'' ''r'' ''a.txt'' ''m'' ''YQ=='' ''main'' None) = Inr NoSha"
    by (simp_all add: env_not_found_def)
  have listing: "octokit_rest env_directory (calls idle_world) (GetContent ''t'' ''o'' ''r'' ''a.txt'' ''main'')
                   = Inr NoSha"
    by (simp add: env_directory_def)
  have none: "calls idle_world = []"
    by (simp add: idle_world_def)
  from remote_writer_calls[of True env_accepting idle_world "''t''" "''o''" "''r''" "''a.txt''" "''main''"
         "''abc''" "''YQ==''" "''m''"]
    remote_writer_calls[of True env_not_found idle_world "''t''" "''o''" "''r''" "''a.txt''" "''main''"
         "''abc''" "''YQ==''" "''m''" "JsError (Some 404) ''Not Found''"]
    remote_writer_calls[of True env_directory idle_world "''t''" "''o''" "''r''" "''a.txt''" "''main''"
         "''abc''" "''YQ==''" "''m''"]
    remote_writer_calls[of False env_accepting idle_world "''t''" "''o''" "''r''" "''a.txt''" "''main''"
         "''abc''" "''YQ==''" "''m''"]
  show ?thesis
    using found missing listing none by simp
qed

section \<open>The observed history of a run\<close>

lemma tracked_weaken:
  "tracked jid P Q k w \<Longrightarrow> (\<And>j. Q j \<Longrightarrow> Q' j) \<Longrightarrow> tracked jid P Q' k w"
  by (auto simp: tracked_def)

lemma upload_route_tracked:
  "tracked uuid job_inv (\<lambda>j. True) (length (snapshots w)) (upload_route e uuid zb jd w)"
proof -
  let ?w1 = "snd (createUploadJob e uuid jd w)"
  have t1: "tracked uuid job_inv fresh (length (snapshots w)) ?w1"
    by (rule createUploadJob_tracked)
  show ?thesis
  proof (cases "loadAsync e zb")
    case (Inl err)
    show ?thesis
      unfolding upload_route_eq
      by (rule tracked_weaken[OF pz_corrupt(1)[OF Inl t1]]) simp
  next
    case (Inr zc)
    show ?thesis
    proof (cases "fst (validateGitHubAccess e (ins_githubToken jd) (ins_repositoryUrl jd) ?w1)")
      case (Inl err)
      show ?thesis
        unfolding upload_route_eq
        by (rule tracked_weaken[OF pz_invalid(1)[OF Inr Inl t1]]) simp
    next
      case v: (Inr v)
      show ?thesis
        unfolding upload_route_eq
        by (rule tracked_weaken[OF pz_valid_tracked[OF Inr v t1]]) simp
    qed
  qed
qed

lemma upload_route_observed:
  "s \<in> set (drop (length (snapshots w)) (snapshots (upload_route e uuid zb jd w))) \<Longrightarrow>
   \<exists>j. s uuid = Some j \<and> job_inv j"
  using upload_route_tracked[of uuid w e zb jd] by (simp add: tracked_def)

lemma upload_route_observes:
  "last (snapshots (upload_route e uuid zb jd w))
     \<in> set (drop (length (snapshots w)) (snapshots (upload_route e uuid zb jd w)))"
proof -
  have "length (snapshots w) < length (snapshots (upload_route e uuid zb jd w))"
    using upload_route_tracked[of uuid w e zb jd] by (simp add: tracked_def)
  then have "drop (length (snapshots w)) (snapshots (upload_route e uuid zb jd w)) \<noteq> []"
    by simp
  then have "last (drop (length (snapshots w)) (snapshots (upload_route e uuid zb jd w)))
      \<in> set (drop (length (snapshots w)) (snapshots (upload_route e uuid zb jd w)))"
    by (rule last_in_set)
  then show ?thesis
    using \<open>length (snapshots w) < length (snapshots (upload_route e uuid zb jd w))\<close>
    by (simp add: last_drop)
qed


lemma updateUploadJob_grows:
  "prefix (snapshots w) (snapshots (snd (updateUploadJob e jid upd w)))"
  by (cases "uploadJobs w jid") (simp_all add: updateUploadJob_known updateUploadJob_unknown)

lemma uploadFileToGitHub_snapshots [simp]:
  "snapshots (snd (uploadFileToGitHub e octokit owner repo path content msg branch overwrite w)) = snapshots w"
  using uploadFileToGitHub_world[of e octokit owner repo path content msg branch overwrite w]
  by auto

lemma validateGitHubAccess_snapshots [simp]:
  "snapshots (snd (validateGitHubAccess e token repoUrl w)) = snapshots w"
  using validateGitHubAccess_world[of e token repoUrl w] by auto

lemma append_log_grows: "prefix (snapshots w) (snapshots (append_log e jid lvl msg w))"
proof (cases "uploadJobs w jid")
  case None
  then show ?thesis by (simp add: append_log_def getUploadJob_def)
next
  case (Some j)
  show ?thesis
    using updateUploadJob_grows[of "w\<lparr>clock := Suc (clock w)\<rparr>" e jid]
    by (simp add: append_log_def getUploadJob_def Some log_now_eq)
qed

lemma process_file_grows:
  "prefix (snapshots w) (snapshots (process_file e jid jd tok owner repo n i f w))"
proof -
  let ?w1 = "snd (updateUploadJob e jid
                 (no_updates\<lparr>upd_currentFile := Some (Some (name f)),
                              upd_filesProcessed := Some i,
                              upd_progress := Some (math_round_percent i n)\<rparr>) w)"
  have one: "prefix (snapshots w) (snapshots ?w1)"
    by (rule updateUploadJob_grows)
  have two: "prefix (snapshots w) (snapshots (append_log e jid lvl msg w'))"
    if "snapshots w' = snapshots ?w1" for lvl msg w'
  proof -
    have "prefix (snapshots ?w1) (snapshots (append_log e jid lvl msg w'))"
      using append_log_grows[of w' e jid lvl msg] that by simp
    with one show ?thesis by (rule prefix_order.trans)
  qed
  show ?thesis
  proof (cases "async_base64 f")
    case (Inl err)
    then show ?thesis
      using two[of ?w1] by (simp add: process_file_def Let_def)
  next
    case (Inr content)
    let ?up = "uploadFileToGitHub e tok owner repo
                   (case destination_path (ins_preserveStructure jd) (name f) of
                      None \<Rightarrow> ''undefined'' | Some p \<Rightarrow> p)
                   content
                   (commit_message (ins_commitMessage jd) (name f))
                   (ins_targetBranch jd)
                   (ins_overwriteFiles jd) ?w1"
    have "snapshots (snd ?up) = snapshots ?w1"
      by simp
    from two[OF this] show ?thesis
      using Inr by (cases "fst ?up") (simp_all add: process_file_def Let_def split_def)
  qed
qed

lemma process_files_grows:
  "prefix (snapshots w) (snapshots (process_files e jid jd tok owner repo n i fs w))"
proof (induction fs arbitrary: i w)
  case Nil
  then show ?case by simp
next
  case (Cons f rest)
  have "prefix (snapshots w) (snapshots (process_file e jid jd tok owner repo n i f w))"
    by (rule process_file_grows)
  moreover have "prefix (snapshots (process_file e jid jd tok owner repo n i f w))
      (snapshots (process_files e jid jd tok owner repo n (Suc i) rest
         (process_file e jid jd tok owner repo n i f w)))"
    by (rule Cons.IH)
  ultimately have "prefix (snapshots w)
      (snapshots (process_files e jid jd tok owner repo n (Suc i) rest
         (process_file e jid jd tok owner repo n i f w)))"
    by (rule prefix_order.trans)
  then show ?case by simp
qed

lemma fatal_grows: "prefix (snapshots w) (snapshots (fatal e jid err w))"
  using updateUploadJob_grows[of "w\<lparr>clock := Suc (clock w)\<rparr>" e jid]
  by (simp add: fatal_def log_now_eq)

lemma run_counted_grows:
  "prefix (snapshots (run_started e jid w)) (snapshots (run_counted e jid n w))"
  using updateUploadJob_grows[of "(run_started e jid w)\<lparr>clock := Suc (clock (run_started e jid w))\<rparr>" e jid]
  by (simp add: run_counted_def)

lemma pz_valid_eq:
  assumes "loadAsync e zb = Inr zc"
    and "fst (validateGitHubAccess e (ins_githubToken jd) (ins_repositoryUrl jd) w) = Inr v"
  shows "processZipUpload e jid zb jd w =
     (let n = length (filter (\<lambda>f. \<not> dir f) zc);
          w6 = process_files e jid jd (ins_githubToken jd) (fst v) (snd v) n 0
                 (filter (\<lambda>f. \<not> dir f) zc)
                 (snd (validateGitHubAccess e (ins_githubToken jd) (ins_repositoryUrl jd)
                        (run_counted e jid n w)))
      in snd (updateUploadJob e jid (final_updates e n w6) (w6\<lparr>clock := Suc (clock w6)\<rparr>)))"
proof -
  let ?w4 = "run_counted e jid (length (filter (\<lambda>f. \<not> dir f) zc)) w"
  have "fst (validateGitHubAccess e (ins_githubToken jd) (ins_repositoryUrl jd) ?w4) = Inr v"
    using assms(2) validateGitHubAccess_calls_only[of ?w4 w] by simp
  then show ?thesis
    by (simp add: pz_loaded_eq[OF assms(1)] Let_def)
qed

lemma pz_grows_loop:
  assumes "loadAsync e zb = Inr zc"
    and "fst (validateGitHubAccess e (ins_githubToken jd) (ins_repositoryUrl jd) w) = Inr v"
  shows "prefix
     (snapshots (process_files e jid jd (ins_githubToken jd) (fst v) (snd v)
                 (length (filter (\<lambda>f. \<not> dir f) zc)) 0 (filter (\<lambda>f. \<not> dir f) zc)
                 (snd (validateGitHubAccess e (ins_githubToken jd) (ins_repositoryUrl jd)
                        (run_counted e jid (length (filter (\<lambda>f. \<not> dir f) zc)) w)))))
     (snapshots (processZipUpload e jid zb jd w))"
proof -
  have "prefix (snapshots w6)
          (snapshots (snd (updateUploadJob e jid upd (w6\<lparr>clock := Suc (clock w6)\<rparr>))))" for w6 upd
    using updateUploadJob_grows[of "w6\<lparr>clock := Suc (clock w6)\<rparr>" e jid upd] by simp
  then show ?thesis
    unfolding pz_valid_eq[OF assms] Let_def .
qed


lemma pz_grows_started:
  "prefix (snapshots (run_started e jid w)) (snapshots (processZipUpload e jid zb jd w))"
proof (cases "loadAsync e zb")
  case (Inl err)
  then have "processZipUpload e jid zb jd w = fatal e jid err (run_started e jid w)"
    by (simp add: pz_corrupt_eq run_started_def)
  then show ?thesis by (simp add: fatal_grows)
next
  case (Inr zc)
  let ?files = "filter (\<lambda>f. \<not> dir f) zc"
  let ?w4 = "run_counted e jid (length ?files) w"
  let ?v = "validateGitHubAccess e (ins_githubToken jd) (ins_repositoryUrl jd) ?w4"
  have base: "prefix (snapshots (run_started e jid w)) (snapshots (snd ?v))"
    using run_counted_grows[of e jid w "length ?files"] by simp
  show ?thesis
  proof (cases "fst ?v")
    case (Inl err)
    then have eq: "processZipUpload e jid zb jd w = fatal e jid err (snd ?v)"
      by (simp add: pz_loaded_eq[OF Inr] Let_def)
    have "prefix (snapshots (snd ?v)) (snapshots (fatal e jid err (snd ?v)))"
      by (rule fatal_grows)
    with base have "prefix (snapshots (run_started e jid w)) (snapshots (fatal e jid err (snd ?v)))"
      by (rule prefix_order.trans)
    then show ?thesis
      unfolding eq .
  next
    case v: (Inr v)
    let ?w6 = "process_files e jid jd (ins_githubToken jd) (fst v) (snd v) (length ?files) 0 ?files (snd ?v)"
    have eq: "processZipUpload e jid zb jd w =
        snd (updateUploadJob e jid (final_updates e (length ?files) ?w6) (?w6\<lparr>clock := Suc (clock ?w6)\<rparr>))"
      using v by (simp add: pz_loaded_eq[OF Inr] Let_def)
    have "prefix (snapshots (snd ?v)) (snapshots ?w6)"
      by (rule process_files_grows)
    moreover have "prefix (snapshots ?w6) (snapshots (processZipUpload e jid zb jd w))"
      unfolding eq
      using updateUploadJob_grows[of "?w6\<lparr>clock := Suc (clock ?w6)\<rparr>" e jid] by simp
    ultimately have "prefix (snapshots (snd ?v)) (snapshots (processZipUpload e jid zb jd w))"
      by (rule prefix_order.trans)
    with base show ?thesis
      by (rule prefix_order.trans)
  qed
qed

lemma first_two_states:
  "\<exists>s0 s1 rest j0 j1.
     drop (length (snapshots w)) (snapshots (upload_route e uuid zb jd w)) = s0 # s1 # rest \<and>
     s0 uuid = Some j0 \<and> fresh j0 \<and> s1 uuid = Some j1 \<and> looping 0 0 j1"
proof -
  let ?w1 = "snd (createUploadJob e uuid jd w)"
  have t1: "tracked uuid job_inv fresh (length (snapshots w)) ?w1"
    by (rule createUploadJob_tracked)
  have s1: "snapshots ?w1 = snapshots w @ [uploadJobs ?w1]"
    by (simp add: createUploadJob_def new_Date_def Let_def)
  obtain j0 where j0: "uploadJobs ?w1 uuid = Some j0" "fresh j0"
    using t1 by (auto simp: tracked_def)
  have t2: "tracked uuid job_inv (looping 0 0) (length (snapshots w)) (run_started e uuid ?w1)"
    by (rule run_started_tracked[OF t1])
  obtain j1 where j1: "uploadJobs (run_started e uuid ?w1) uuid = Some j1" "looping 0 0 j1"
    using t2 by (auto simp: tracked_def)
  have s2: "snapshots (run_started e uuid ?w1) = snapshots ?w1 @ [uploadJobs (run_started e uuid ?w1)]"
    by (simp add: run_started_def updateUploadJob_known[where job = j0] j0)
  obtain rest where rest: "snapshots (upload_route e uuid zb jd w) = snapshots (run_started e uuid ?w1) @ rest"
    using pz_grows_started[of e uuid ?w1 zb jd] by (auto simp: upload_route_eq prefix_def)
  have "drop (length (snapshots w)) (snapshots (upload_route e uuid zb jd w))
      = uploadJobs ?w1 # uploadJobs (run_started e uuid ?w1) # rest"
    by (simp add: rest s2 s1)
  with j0 j1 show ?thesis by blast
qed


lemma append_log_known:
  assumes "uploadJobs w jid = Some j"
  shows "\<exists>j'. last (snapshots (append_log e jid lvl msg w)) jid = Some j' \<and>
            logs j' = logs j @ [\<lparr> timestamp = toISOString e (clock w), level = lvl, message = msg \<rparr>]"
    and "snapshots (append_log e jid lvl msg w) \<noteq> []"
  using assms
  by (simp_all add: append_log_def getUploadJob_def log_now_eq updateUploadJob_known[where job = j]
        spread_logs)

lemma process_file_logs_failure:
  assumes "uploadJobs w jid = Some j"
    and "async_base64 f = Inr content"
    and "\<not> ins_overwriteFiles jd"
    and "octokit_rest e (calls w)
           (CreateOrUpdateFileContents tok owner repo
              (case destination_path (ins_preserveStructure jd) (name f) of
                 None \<Rightarrow> ''undefined'' | Some p \<Rightarrow> p)
              (commit_message (ins_commitMessage jd) (name f)) content (ins_targetBranch jd) None)
         = Inl err"
  shows "\<exists>j'. last (snapshots (process_file e jid jd tok owner repo n i f w)) jid = Some j' \<and>
            logs j' \<noteq> [] \<and> level (last (logs j')) = Error"
    and "snapshots (process_file e jid jd tok owner repo n i f w) \<noteq> []"
proof -
  let ?w1 = "snd (updateUploadJob e jid
                 (no_updates\<lparr>upd_currentFile := Some (Some (name f)),
                              upd_filesProcessed := Some i,
                              upd_progress := Some (math_round_percent i n)\<rparr>) w)"
  let ?path = "case destination_path (ins_preserveStructure jd) (name f) of
                 None \<Rightarrow> ''undefined'' | Some p \<Rightarrow> p"
  let ?up = "uploadFileToGitHub e tok owner repo ?path content
               (commit_message (ins_commitMessage jd) (name f)) (ins_targetBranch jd)
               (ins_overwriteFiles jd) ?w1"
  obtain j1 where j1: "uploadJobs ?w1 jid = Some j1"
    by (simp add: updateUploadJob_known[OF assms(1)])
  have res: "fst ?up = Inl (upload_error ?path err)"
    using assms(3,4) by (simp add: uploadFileToGitHub_def Let_def sha_key_def)
  obtain cs where cs: "snd ?up = ?w1\<lparr>calls := calls ?w1 @ cs\<rparr>"
    using uploadFileToGitHub_world by blast
  have j2: "uploadJobs (snd ?up) jid = Some j1"
    using j1 cs by simp
  have eq: "process_file e jid jd tok owner repo n i f w =
      append_log e jid Error (''Erreur pour '' @ name f @ '': '' @ err_message (upload_error ?path err)) (snd ?up)"
    using assms(2) res by (simp add: process_file_def Let_def split_def)
  show "\<exists>j'. last (snapshots (process_file e jid jd tok owner repo n i f w)) jid = Some j' \<and>
            logs j' \<noteq> [] \<and> level (last (logs j')) = Error"
    unfolding eq using append_log_known(1)[OF j2, of e Error] by (metis LogEntry.select_convs(2) last_snoc snoc_eq_iff_butlast)
  show "snapshots (process_file e jid jd tok owner repo n i f w) \<noteq> []"
    unfolding eq by (rule append_log_known(2)[OF j2])
qed

lemma first_write_failure_is_logged:
  assumes "loadAsync e zb = Inr zc"
    and "fst (validateGitHubAccess e (ins_githubToken jd) (ins_repositoryUrl jd) w) = Inr v"
    and "tracked jid job_inv fresh k w"
    and "filter (\<lambda>f. \<not> dir f) zc = f # rest"
    and "async_base64 f = Inr content"
    and "\<not> ins_overwriteFiles jd"
    and "\<And>h. octokit_rest e h
           (CreateOrUpdateFileContents (ins_githubToken jd) (fst v) (snd v)
              (case destination_path (ins_preserveStructure jd) (name f) of
                 None \<Rightarrow> ''undefined'' | Some p \<Rightarrow> p)
              (commit_message (ins_commitMessage jd) (name f)) content (ins_targetBranch jd) None)
         = Inl err"
  shows "\<exists>s j. s \<in> set (snapshots (processZipUpload e jid zb jd w)) \<and> s jid = Some j \<and>
            logs j \<noteq> [] \<and> level (last (logs j)) = Error"
proof -
  let ?n = "length (filter (\<lambda>f. \<not> dir f) zc)"
  let ?w4 = "run_counted e jid ?n w"
  let ?w5 = "snd (validateGitHubAccess e (ins_githubToken jd) (ins_repositoryUrl jd) ?w4)"
  let ?wf = "process_file e jid jd (ins_githubToken jd) (fst v) (snd v) ?n 0 f ?w5"
  have t4: "tracked jid job_inv (looping ?n 0) k ?w4"
    by (rule run_counted_tracked[OF assms(3)])
  have "?w5 = ?w4 \<or> (\<exists>ow r. ?w5 = ?w4\<lparr>calls := calls ?w4 @ [ReposGet (ins_githubToken jd) ow r]\<rparr>)"
    by (rule validateGitHubAccess_world)
  then have "tracked jid job_inv (looping ?n 0) k ?w5"
    using t4 by auto
  then obtain j where j: "uploadJobs ?w5 jid = Some j"
    by (auto simp: tracked_def)
  obtain j' where j': "last (snapshots ?wf) jid = Some j'" "logs j' \<noteq> []" "level (last (logs j')) = Error"
    using process_file_logs_failure(1)[OF j assms(5,6) assms(7)] by blast
  have ne: "snapshots ?wf \<noteq> []"
    by (rule process_file_logs_failure(2)[OF j assms(5,6) assms(7)])
  have "prefix (snapshots ?wf)
          (snapshots (process_files e jid jd (ins_githubToken jd) (fst v) (snd v) ?n 0
                        (filter (\<lambda>f. \<not> dir f) zc) ?w5))"
    using process_files_grows[of ?wf e jid jd "ins_githubToken jd" "fst v" "snd v" ?n "Suc 0" rest]
    by (simp add: assms(4))
  then have "prefix (snapshots ?wf) (snapshots (processZipUpload e jid zb jd w))"
    using pz_grows_loop[OF assms(1,2), of jid] by (rule prefix_order.trans)
  then have "set (snapshots ?wf) \<subseteq> set (snapshots (processZipUpload e jid zb jd w))"
    by (rule set_mono_prefix)
  then have "last (snapshots ?wf) \<in> set (snapshots (processZipUpload e jid zb jd w))"
    using ne last_in_set by blast
  with j' show ?thesis by blast
qed

section \<open>Whole runs\<close>

text \<open>
  The rounding of the double differs from the rounding of the exact quotient: \<open>23 / 40\<close>
  is 57.5 exactly, but the double product is just below it.
\<close>

lemma math_round_percent_examples:
  "math_round_percent 23 40 = 57"
  "math_round_percent 0 7 = 0"
  "math_round_percent 1 3 = 33"
  "math_round_percent 198 199 = 99"
  "math_round_percent 199 200 = 100"
  by (simp_all add: math_round_percent_def to_double_def scale_up.simps scale_down.simps
        round_half_even_def Let_def)

lemma regex_sample: "regex_match ''https://github.com/o/r'' = Some (''o'', ''r'')"
  by (simp add: match_here_def)

lemma sample_validation:
  "octokit_rest e [] (ReposGet ''tok'' ''o'' ''r'') = Inr d \<Longrightarrow>
   fst (validateGitHubAccess e (ins_githubToken sample_submission)
          (ins_repositoryUrl sample_submission)
          (snd (createUploadJob e uuid sample_submission idle_world))) = Inr (''o'', ''r'')"
  by (simp add: validateGitHubAccess_def sample_submission_def regex_sample idle_world_def Let_def
        del: regex_match.simps)

lemma one_failure_loaded:
  "loadAsync env_one_failure zb = Inr [\<lparr> name = ''src/'', dir = True, async_base64 = Inr [] \<rparr>,
                              archive_entry ''a.txt'', archive_entry ''src/b.txt'']"
  by (simp add: env_one_failure_def)

lemma one_failure_files:
  "filter (\<lambda>f. \<not> dir f) [\<lparr> name = ''src/'', dir = True, async_base64 = Inr [] \<rparr>,
                              archive_entry ''a.txt'', archive_entry ''src/b.txt'']
     = [archive_entry ''a.txt'', archive_entry ''src/b.txt'']"
  by (simp add: archive_entry_def)

lemma one_failure_count:
  "length (filter (\<lambda>f. \<not> dir f) [\<lparr> name = ''src/'', dir = True, async_base64 = Inr [] \<rparr>,
                              archive_entry ''a.txt'', archive_entry ''src/b.txt'']) = 2"
  by (simp add: archive_entry_def)

lemma one_failure_validation:
  "fst (validateGitHubAccess env_one_failure (ins_githubToken sample_submission)
          (ins_repositoryUrl sample_submission)
          (snd (createUploadJob env_one_failure uuid sample_submission idle_world))) = Inr (''o'', ''r'')"
  by (rule sample_validation[where d = NoSha]) (simp add: env_one_failure_def)

lemma many_files_loaded:
  "loadAsync env_many zb = Inr (map (\<lambda>i. archive_entry (show_nat i)) [0..<201])"
  by (simp add: env_many_def del: upt_rec_numeral)

lemma many_files_count:
  "length (filter (\<lambda>f. \<not> dir f) (map (\<lambda>i. archive_entry (show_nat i)) [0..<n])) = n"
proof -
  have "filter (\<lambda>f. \<not> dir f) (map (\<lambda>i. archive_entry (show_nat i)) xs)
          = map (\<lambda>i. archive_entry (show_nat i)) xs" for xs
    by (induction xs) (simp_all add: archive_entry_def)
  then show ?thesis
    by simp
qed

lemma many_validation:
  "fst (validateGitHubAccess env_many (ins_githubToken sample_submission)
          (ins_repositoryUrl sample_submission)
          (snd (createUploadJob env_many uuid sample_submission idle_world))) = Inr (''o'', ''r'')"
  by (rule sample_validation[where d = NoSha]) (simp add: env_many_def)


lemma run_last_step:
  assumes "loadAsync e zb = Inr zc"
    and "fst (validateGitHubAccess e (ins_githubToken jd) (ins_repositoryUrl jd)
               (snd (createUploadJob e uuid jd w))) = Inr v"
    and "length (filter (\<lambda>f. \<not> dir f) zc) = n"
  shows "\<exists>j j'. last (butlast (snapshots (upload_route e uuid zb jd w))) uuid = Some j \<and>
            looping n n j \<and>
            last (snapshots (upload_route e uuid zb jd w)) uuid = Some j' \<and>
            uploadJobs (upload_route e uuid zb jd w) uuid = Some j' \<and>
            finished n j'"
proof -
  have t: "tracked uuid job_inv (finished n) (length (snapshots w)) (upload_route e uuid zb jd w)"
    using pz_valid_tracked[OF assms(1,2) createUploadJob_tracked]
    unfolding upload_route_eq assms(3) .
  then have "last (snapshots (upload_route e uuid zb jd w)) = uploadJobs (upload_route e uuid zb jd w)"
    by (simp add: tracked_def)
  then show ?thesis
    using pz_valid_last_step[OF assms(1,2) createUploadJob_tracked]
    unfolding upload_route_eq assms(3) by auto
qed

text \<open>
  C2: in the run on an archive of 201 files, the state observed just before the terminal
  update has status \<open>processing\<close> and progress 100, with 200 of 201 files processed:
  \<open>Math.round((200 / 201) * 100)\<close> is 100.
\<close>

theorem progress_100_while_processing:
  "map_option status
     (last (butlast (snapshots (upload_route env_many ''job-1'' [] sample_submission idle_world))) ''job-1'')
     = Some Processing \<and>
   map_option progress
     (last (butlast (snapshots (upload_route env_many ''job-1'' [] sample_submission idle_world))) ''job-1'')
     = Some 100 \<and>
   map_option filesProcessed
     (last (butlast (snapshots (upload_route env_many ''job-1'' [] sample_submission idle_world))) ''job-1'')
     = Some 200 \<and>
   map_option totalFiles
     (last (butlast (snapshots (upload_route env_many ''job-1'' [] sample_submission idle_world))) ''job-1'')
     = Some 201"
proof -
  obtain j where j:
    "last (butlast (snapshots (upload_route env_many ''job-1'' [] sample_submission idle_world))) ''job-1'' = Some j"
    "looping 201 201 j"
    using run_last_step[OF many_files_loaded many_validation many_files_count, of "''job-1''" "[]"]
    by blast
  have "math_round_percent 200 201 = 100"
    by (simp add: math_round_percent_def to_double_def scale_up.simps scale_down.simps
          round_half_even_def Let_def)
  then show ?thesis
    using j by (simp add: looping_def)
qed

text \<open>
  C1: in the run on the two-file archive, the job's log holds three entries in the state
  observed just before the terminal update and one entry in the terminal state: the
  terminal update replaces the stored log instead of appending to it.
\<close>

theorem log_is_overwritten:
  "map_option (\<lambda>j. length (logs j))
     (last (butlast (snapshots (upload_route env_one_failure ''job-1'' [] sample_submission idle_world))) ''job-1'')
     = Some 3 \<and>
   map_option (\<lambda>j. length (logs j))
     (last (snapshots (upload_route env_one_failure ''job-1'' [] sample_submission idle_world)) ''job-1'')
     = Some 1"
proof -
  obtain j j' where j:
    "last (butlast (snapshots (upload_route env_one_failure ''job-1'' [] sample_submission idle_world))) ''job-1'' = Some j"
    "looping 2 2 j"
    "last (snapshots (upload_route env_one_failure ''job-1'' [] sample_submission idle_world)) ''job-1'' = Some j'"
    "finished 2 j'"
    using run_last_step[OF one_failure_loaded one_failure_validation one_failure_count, of "''job-1''" "[]"]
    by blast
  have "length (map level (logs j')) = 1"
    using j(4) by (simp add: finished_def)
  then show ?thesis
    using j by (simp add: looping_def)
qed


lemma one_failure_final:
  "\<exists>j. last (snapshots (upload_route env_one_failure ''job-1'' [] sample_submission idle_world)) ''job-1'' = Some j \<and>
       uploadJobs (upload_route env_one_failure ''job-1'' [] sample_submission idle_world) ''job-1'' = Some j \<and>
       finished 2 j"
  using run_last_step[OF one_failure_loaded one_failure_validation one_failure_count, of "''job-1''" "[]"]
  by blast

text \<open>
  C8: in every state observable from the creation of a job to the end of its run, the job
  is stored and \<open>filesProcessed \<le> totalFiles\<close>; the first two of these states (creation,
  start of processing) precede the recording of \<open>totalFiles\<close>, and both counters are 0 there.
\<close>

theorem filesProcessed_le_totalFiles:
  "(\<forall>s \<in> set (drop (length (snapshots w)) (snapshots (upload_route e uuid zb jd w))).
      \<exists>j. s uuid = Some j \<and> filesProcessed j \<le> totalFiles j) \<and>
   2 \<le> length (drop (length (snapshots w)) (snapshots (upload_route e uuid zb jd w))) \<and>
   (\<forall>s \<in> set (take 2 (drop (length (snapshots w)) (snapshots (upload_route e uuid zb jd w)))).
      \<exists>j. s uuid = Some j \<and> filesProcessed j = 0 \<and> totalFiles j = 0)"
proof -
  obtain s0 s1 rest j0 j1 where first:
    "drop (length (snapshots w)) (snapshots (upload_route e uuid zb jd w)) = s0 # s1 # rest"
    "s0 uuid = Some j0" "fresh j0" "s1 uuid = Some j1" "looping 0 0 j1"
    using first_two_states[of w e uuid zb jd] by blast
  have "\<exists>j. s uuid = Some j \<and> filesProcessed j \<le> totalFiles j"
    if "s \<in> set (drop (length (snapshots w)) (snapshots (upload_route e uuid zb jd w)))" for s
    using upload_route_observed[OF that] by (auto simp: job_inv_def)
  moreover have "2 \<le> length (drop (length (snapshots w)) (snapshots (upload_route e uuid zb jd w)))"
    unfolding first(1) by simp
  moreover have "\<exists>j. s uuid = Some j \<and> filesProcessed j = 0 \<and> totalFiles j = 0"
    if "s \<in> set (take 2 (drop (length (snapshots w)) (snapshots (upload_route e uuid zb jd w))))" for s
    using that first by (auto simp: fresh_def looping_def)
  ultimately show ?thesis by blast
qed

theorem filesProcessed_le_totalFiles_witness:
  "last (snapshots (upload_route env_one_failure ''job-1'' [] sample_submission idle_world))
     \<in> set (drop (length (snapshots idle_world))
               (snapshots (upload_route env_one_failure ''job-1'' [] sample_submission idle_world))) \<and>
   (\<exists>j. last (snapshots (upload_route env_one_failure ''job-1'' [] sample_submission idle_world)) ''job-1''
           = Some j \<and>
        filesProcessed j = 2 \<and> totalFiles j = 2 \<and> filesProcessed j \<le> totalFiles j) \<and>
   (\<exists>j. hd (drop (length (snapshots idle_world))
               (snapshots (upload_route env_one_failure ''job-1'' [] sample_submission idle_world))) ''job-1''
           = Some j \<and>
        filesProcessed j = 0 \<and> totalFiles j = 0)"
proof -
  let ?W = "upload_route env_one_failure ''job-1'' [] sample_submission idle_world"
  note inst = filesProcessed_le_totalFiles[of idle_world env_one_failure "''job-1''" "[]" sample_submission]
  have mem: "last (snapshots ?W) \<in> set (drop (length (snapshots idle_world)) (snapshots ?W))"
    by (rule upload_route_observes)
  obtain j where j: "last (snapshots ?W) ''job-1'' = Some j" "finished 2 j"
    using one_failure_final by blast
  have hd: "hd (drop (length (snapshots idle_world)) (snapshots ?W))
              \<in> set (take 2 (drop (length (snapshots idle_world)) (snapshots ?W)))"
    using inst by (cases "drop (length (snapshots idle_world)) (snapshots ?W)") auto
  show ?thesis
    using inst mem j hd by (auto simp: finished_def)
qed

text \<open>
  C4: when the codec rejects the archive, or the access validator rejects the credential
  and repository URL (its result depends on the world only through the calls made so far),
  the run ends with the job in status \<open>failed\<close> carrying that error's message, and the
  calls made on the remote service are those made before, followed at most by the
  validator's one repository read: the remote writer is never invoked.
\<close>

theorem preflight_failure_makes_no_write:
  assumes "loadAsync e zb = Inl err \<or>
           (\<exists>zc. loadAsync e zb = Inr zc \<and>
              fst (validateGitHubAccess e (ins_githubToken jd) (ins_repositoryUrl jd) w) = Inl err)"
  shows "(\<exists>j. uploadJobs (upload_route e uuid zb jd w) uuid = Some j \<and>
              status j = Failed \<and> error j = Some (err_message err)) \<and>
         (calls (upload_route e uuid zb jd w) = calls w \<or>
          (\<exists>ow r. calls (upload_route e uuid zb jd w) = calls w @ [ReposGet (ins_githubToken jd) ow r]))"
proof -
  let ?w1 = "snd (createUploadJob e uuid jd w)"
  have t1: "tracked uuid job_inv fresh (length (snapshots w)) ?w1"
    by (rule createUploadJob_tracked)
  from assms show ?thesis
  proof (elim disjE exE conjE)
    assume load: "loadAsync e zb = Inl err"
    have "tracked uuid job_inv (aborted (err_message err)) (length (snapshots w))
            (upload_route e uuid zb jd w)"
      unfolding upload_route_eq by (rule pz_corrupt(1)[OF load t1])
    moreover have "calls (upload_route e uuid zb jd w) = calls w"
      unfolding upload_route_eq using pz_corrupt(2)[OF load t1] by simp
    ultimately show ?thesis
      by (auto simp: tracked_def aborted_def)
  next
    fix zc
    assume load: "loadAsync e zb = Inr zc"
      and "fst (validateGitHubAccess e (ins_githubToken jd) (ins_repositoryUrl jd) w) = Inl err"
    then have v: "fst (validateGitHubAccess e (ins_githubToken jd) (ins_repositoryUrl jd) ?w1) = Inl err"
      using validateGitHubAccess_calls_only[of ?w1 w] by simp
    have "tracked uuid job_inv (aborted (err_message err)) (length (snapshots w))
            (upload_route e uuid zb jd w)"
      unfolding upload_route_eq by (rule pz_invalid(1)[OF load v t1])
    moreover have "calls (upload_route e uuid zb jd w) = calls w \<or>
          (\<exists>ow r. calls (upload_route e uuid zb jd w) = calls w @ [ReposGet (ins_githubToken jd) ow r])"
      unfolding upload_route_eq using pz_invalid(2)[OF load v t1] by simp
    ultimately show ?thesis
      by (auto simp: tracked_def aborted_def)
  qed
qed

lemma unauthorized_validation:
  "fst (validateGitHubAccess env_unauthorized (ins_githubToken sample_submission)
          (ins_repositoryUrl sample_submission) idle_world) = Inl (JsError None msg_invalid_token)"
  by (simp add: validateGitHubAccess_def sample_submission_def regex_sample idle_world_def Let_def
        env_unauthorized_def validate_catch_def del: regex_match.simps)

theorem preflight_failure_makes_no_write_witness:
  "loadAsync env_corrupt [] = Inl (JsError None ''Corrupted zip'') \<and>
   (\<exists>j. uploadJobs (upload_route env_corrupt ''job-1'' [] sample_submission idle_world) ''job-1'' = Some j \<and>
        status j = Failed \<and> error j = Some ''Corrupted zip'') \<and>
   (calls (upload_route env_corrupt ''job-1'' [] sample_submission idle_world) = [] \<or>
    (\<exists>ow r. calls (upload_route env_corrupt ''job-1'' [] sample_submission idle_world)
               = [ReposGet ''tok'' ow r])) \<and>
   loadAsync env_unauthorized [] = Inr [archive_entry ''a.txt''] \<and>
   fst (validateGitHubAccess env_unauthorized ''tok'' ''https://github.com/o/r'' idle_world)
     = Inl (JsError None msg_invalid_token) \<and>
   (\<exists>j. uploadJobs (upload_route env_unauthorized ''job-1'' [] sample_submission idle_world) ''job-1'' = Some j \<and>
        status j = Failed \<and> error j = Some msg_invalid_token) \<and>
   (calls (upload_route env_unauthorized ''job-1'' [] sample_submission idle_world) = [] \<or>
    (\<exists>ow r. calls (upload_route env_unauthorized ''job-1'' [] sample_submission idle_world)
               = [ReposGet ''tok'' ow r]))"
proof -
  have corrupt: "loadAsync env_corrupt [] = Inl (JsError None ''Corrupted zip'')"
    by (simp add: env_corrupt_def)
  have loaded: "loadAsync env_unauthorized [] = Inr [archive_entry ''a.txt'']"
    by (simp add: env_unauthorized_def)
  have rejected: "\<exists>zc. loadAsync env_unauthorized [] = Inr zc \<and>
      fst (validateGitHubAccess env_unauthorized (ins_githubToken sample_submission)
          (ins_repositoryUrl sample_submission) idle_world) = Inl (JsError None msg_invalid_token)"
    using loaded unauthorized_validation by blast
  have sub: "ins_githubToken sample_submission = ''tok''"
    "ins_repositoryUrl sample_submission = ''https://github.com/o/r''"
    by (simp_all add: sample_submission_def)
  have none: "calls idle_world = []"
    by (simp add: idle_world_def)
  from preflight_failure_makes_no_write[of env_corrupt "[]" "JsError None ''Corrupted zip''"
         sample_submission idle_world "''job-1''"]
    preflight_failure_makes_no_write[of env_unauthorized "[]" "JsError None msg_invalid_token"
         sample_submission idle_world "''job-1''"]
  show ?thesis
    using corrupt loaded rejected unauthorized_validation sub none by simp
qed

text \<open>
  C3: on the archive of two files where the write of \<open>a.txt\<close> fails and the write of
  \<open>src/b.txt\<close> succeeds, the run records an error entry (some observed state has it as its
  last log entry) and ends with status \<open>completed\<close> and \<open>filesProcessed = 2\<close>, but the
  terminal job record holds a single log entry of severity \<open>info\<close> and none of severity
  \<open>error\<close>.
\<close>

theorem recorded_error_is_dropped:
  "fst (uploadFileToGitHub env_one_failure ''tok'' ''o'' ''r'' ''a.txt'' ''YQ=='' ''Upload de a.txt''
          ''main'' False idle_world)
     = Inl (upload_error ''a.txt'' (JsError (Some 500) ''boom'')) \<and>
   fst (uploadFileToGitHub env_one_failure ''tok'' ''o'' ''r'' ''src/b.txt'' ''YQ=='' ''Upload de src/b.txt''
          ''main'' False idle_world)
     = Inr () \<and>
   (\<exists>s j. s \<in> set (snapshots (upload_route env_one_failure ''job-1'' [] sample_submission idle_world)) \<and>
        s ''job-1'' = Some j \<and> logs j \<noteq> [] \<and> level (last (logs j)) = Error) \<and>
   (\<exists>j. uploadJobs (upload_route env_one_failure ''job-1'' [] sample_submission idle_world) ''job-1'' = Some j \<and>
        status j = Completed \<and> filesProcessed j = 2 \<and> totalFiles j = 2 \<and>
        map level (logs j) = [Info])"
proof -
  have a: "fst (uploadFileToGitHub env_one_failure ''tok'' ''o'' ''r'' ''a.txt'' ''YQ=='' ''Upload de a.txt''
          ''main'' False idle_world)
     = Inl (upload_error ''a.txt'' (JsError (Some 500) ''boom''))"
    by (simp add: uploadFileToGitHub_def env_one_failure_def Let_def sha_key_def)
  have b: "fst (uploadFileToGitHub env_one_failure ''tok'' ''o'' ''r'' ''src/b.txt'' ''YQ=='' ''Upload de src/b.txt''
          ''main'' False idle_world)
     = Inr ()"
    by (simp add: uploadFileToGitHub_def env_one_failure_def Let_def sha_key_def)
  have rejected: "octokit_rest env_one_failure h
           (CreateOrUpdateFileContents (ins_githubToken sample_submission) (fst (''o'', ''r'')) (snd (''o'', ''r''))
              (case destination_path (ins_preserveStructure sample_submission) (name (archive_entry ''a.txt'')) of
                 None \<Rightarrow> ''undefined'' | Some p \<Rightarrow> p)
              (commit_message (ins_commitMessage sample_submission) (name (archive_entry ''a.txt'')))
              ''YQ=='' (ins_targetBranch sample_submission) None)
         = Inl (JsError (Some 500) ''boom'')" for h
    by (simp add: env_one_failure_def destination_path_def sample_submission_def archive_entry_def)
  have logged: "\<exists>s j. s \<in> set (snapshots (upload_route env_one_failure ''job-1'' [] sample_submission idle_world)) \<and>
        s ''job-1'' = Some j \<and> logs j \<noteq> [] \<and> level (last (logs j)) = Error"
    unfolding upload_route_eq
    by (rule first_write_failure_is_logged[OF one_failure_loaded one_failure_validation
          createUploadJob_tracked one_failure_files _ _ rejected])
       (simp_all add: archive_entry_def sample_submission_def)
  show ?thesis
    using a b logged one_failure_final by (auto simp: finished_def)
qed

end
